theory Spec2Isabelle
  imports Complex_Main "HOL-Library.Log_Nat" "HOL-Library.Sublist" "HOL-Library.Multiset"
    "HOL-Library.Product_Lexorder"
begin

section \<open>Spreadsheet cells and the JavaScript coercions applied to them\<close>

text \<open>
  \<^verbatim>\<open>XLSX.utils.sheet_to_json\<close> turns every sheet row into an object whose properties are
  the column headers. A cell holds text, a number, a boolean or \<^verbatim>\<open>null\<close> (an error
  cell); a column with no cell in the row is a missing property, read as
  \<^verbatim>\<open>undefined\<close>. A row is therefore a partial map from header to cell, with
  \<open>None\<close> for \<^verbatim>\<open>undefined\<close>.

  Numeric cells are modelled at integer values (the identifiers and household counts the
  pipeline reads), as mathematical integers: JavaScript holds them as doubles, which is
  exact below \<open>2^53\<close>. Text is a list of code units below 256.
\<close>

datatype cell = CStr string | CNum int | CBool bool | CNull

type_synonym rawrow = "string \<Rightarrow> cell option"

datatype error = SourceReadError | TypeError

text \<open>ToBoolean, as used by \<^verbatim>\<open>if (v)\<close>, \<^verbatim>\<open>!v\<close> and \<^verbatim>\<open>a || b\<close>.\<close>

fun truthy :: "cell option \<Rightarrow> bool" where
  "truthy None = False"
| "truthy (Some (CStr s)) = (s \<noteq> [])"
| "truthy (Some (CNum n)) = (n \<noteq> 0)"
| "truthy (Some (CBool b)) = b"
| "truthy (Some CNull) = False"

text \<open>\<^verbatim>\<open>a || b\<close> on cells.\<close>

definition or_else :: "cell option \<Rightarrow> cell option \<Rightarrow> cell option" where
  "or_else a b = (if truthy a then a else b)"

subsection \<open>Decimal rendering\<close>

definition digit_char :: "nat \<Rightarrow> char" where
  "digit_char d = ''0123456789'' ! d"

function decimal :: "nat \<Rightarrow> string" where
  "decimal n = (if n < 10 then [digit_char n] else decimal (n div 10) @ [digit_char (n mod 10)])"
  by pat_completeness auto
termination
  by (relation "measure id") auto

declare decimal.simps [simp del]

text \<open>Number::toString on an integer (of magnitude below \<open>10^21\<close>, where JavaScript
  prints all digits).\<close>

definition int_toString :: "int \<Rightarrow> string" where
  "int_toString n = (if n < 0 then CHR ''-'' # decimal (nat (- n)) else decimal (nat n))"

text \<open>\<^verbatim>\<open>v.toString()\<close> on a truthy cell, and ToString as the template literal applies it.\<close>

fun cell_toString :: "cell \<Rightarrow> string" where
  "cell_toString (CStr s) = s"
| "cell_toString (CNum n) = int_toString n"
| "cell_toString (CBool b) = (if b then ''true'' else ''false'')"
| "cell_toString CNull = ''null''"

fun ToString :: "cell option \<Rightarrow> string" where
  "ToString None = ''undefined''"
| "ToString (Some c) = cell_toString c"

text \<open>\<^verbatim>\<open>s.padStart(n, c)\<close> with a one-character filler: pads on the left, never cuts.\<close>

definition padStart :: "nat \<Rightarrow> char \<Rightarrow> string \<Rightarrow> string" where
  "padStart n c s = replicate (n - length s) c @ s"

subsection \<open>Text operations\<close>

text \<open>\<^verbatim>\<open>toLowerCase\<close> on code units below 256: A to Z, and the accented capitals
  0xC0 to 0xDE except the multiplication sign 0xD7, move up by 32.\<close>

definition lower_char :: "char \<Rightarrow> char" where
  "lower_char c =
     (let n = (of_char c :: nat)
      in if (65 \<le> n \<and> n \<le> 90) \<or> (192 \<le> n \<and> n \<le> 222 \<and> n \<noteq> 215)
         then char_of (n + 32) else c)"

definition toLowerCase :: "string \<Rightarrow> string" where
  "toLowerCase s = map lower_char s"

text \<open>\<^verbatim>\<open>s.includes(k)\<close>: \<open>k\<close> occurs in \<open>s\<close> as a contiguous run.\<close>

fun str_includes :: "string \<Rightarrow> string \<Rightarrow> bool" where
  "str_includes [] k = (k = [])"
| "str_includes (c # s) k = (prefix k (c # s) \<or> str_includes s k)"

subsection \<open>parseInt\<close>

text \<open>
  \<^verbatim>\<open>parseInt(v)\<close> with no radix: the argument is turned into text, leading white space
  is dropped, a sign is read, a \<^verbatim>\<open>0x\<close> prefix selects base 16, and the longest run of
  digits is the value; no digit at all gives NaN, here \<open>None\<close>.
\<close>

definition is_space :: "char \<Rightarrow> bool" where
  "is_space c = ((of_char c :: nat) \<in> {9, 10, 11, 12, 13, 32, 160})"

definition digit_value :: "char \<Rightarrow> nat option" where
  "digit_value c =
     (let n = (of_char c :: nat)
      in if 48 \<le> n \<and> n \<le> 57 then Some (n - 48)
         else if 97 \<le> n \<and> n \<le> 102 then Some (n - 87)
         else if 65 \<le> n \<and> n \<le> 70 then Some (n - 55)
         else None)"

definition is_digit :: "nat \<Rightarrow> char \<Rightarrow> bool" where
  "is_digit radix c = (case digit_value c of None \<Rightarrow> False | Some d \<Rightarrow> d < radix)"

definition digits_value :: "nat \<Rightarrow> string \<Rightarrow> nat" where
  "digits_value radix ds = foldl (\<lambda>acc c. acc * radix + the (digit_value c)) 0 ds"

definition parse_digits :: "nat \<Rightarrow> string \<Rightarrow> int option" where
  "parse_digits radix s =
     (let z = takeWhile (is_digit radix) s
      in if z = [] then None else Some (int (digits_value radix z)))"

definition parseInt_string :: "string \<Rightarrow> int option" where
  "parseInt_string s0 =
     (let s1 = dropWhile is_space s0;
          neg = (s1 \<noteq> [] \<and> hd s1 = CHR ''-'');
          s2 = (if s1 \<noteq> [] \<and> (hd s1 = CHR ''+'' \<or> hd s1 = CHR ''-'') then tl s1 else s1);
          hex = (take 2 s2 = ''0x'' \<or> take 2 s2 = ''0X'');
          r = (if hex then parse_digits 16 (drop 2 s2) else parse_digits 10 s2)
      in map_option (\<lambda>n. if neg then - n else n) r)"

fun parseInt :: "cell option \<Rightarrow> int option" where
  "parseInt (Some (CNum n)) = Some n"
| "parseInt v = parseInt_string (ToString v)"

text \<open>\<^verbatim>\<open>parseInt(v) || 0\<close> and \<^verbatim>\<open>parseInt(v) || null\<close>: NaN and 0 are both falsy.\<close>

definition parseInt_or_0 :: "cell option \<Rightarrow> int" where
  "parseInt_or_0 v = (case parseInt v of None \<Rightarrow> 0 | Some n \<Rightarrow> n)"

definition parseInt_or_null :: "cell option \<Rightarrow> int option" where
  "parseInt_or_null v =
     (case parseInt v of None \<Rightarrow> None | Some n \<Rightarrow> if n = 0 then None else Some n)"

section \<open>JavaScript numbers and the rate text\<close>

text \<open>
  A rate is computed in double precision and printed with \<^verbatim>\<open>toFixed(1)\<close>. A number is
  a rational (the exact value of a finite double), an infinity or NaN. Zero carries no
  sign: every divisor in the pipeline is a sum of integers started at \<open>+0\<close>, which is
  never \<open>-0\<close>, and a zero prints and parses the same with either sign.
\<close>

datatype jsnum = Finite rat | PosInf | NegInf | NaN

definition pow2 :: "int \<Rightarrow> rat" where
  "pow2 e = (if 0 \<le> e then 2 ^ nat e else 1 / 2 ^ nat (- e))"

text \<open>The exponent \<open>k\<close> with \<open>2^k \<le> x < 2^(k+1)\<close>, for positive \<open>x\<close>.\<close>

definition floor_log2 :: "rat \<Rightarrow> int" where
  "floor_log2 x = (if 1 \<le> x then bitlen \<lfloor>x\<rfloor> - 1 else - bitlen (\<lceil>1 / x\<rceil> - 1))"

definition round_even :: "rat \<Rightarrow> int" where
  "round_even q =
     (let f = \<lfloor>q\<rfloor>; r = q - of_int f
      in if r < 1 / 2 then f else if 1 / 2 < r then f + 1
         else if even f then f else f + 1)"

text \<open>
  Round to nearest, ties to even, in binary64: 53 significant bits, the exponent of the
  last bit not below \<open>-1074\<close> (gradual underflow), and infinity when the rounded
  magnitude reaches \<open>2^1024\<close>, that is when its exponent passes 1023.
\<close>

definition fl_pos :: "rat \<Rightarrow> rat" where
  "fl_pos x =
     (let e = max (floor_log2 x - 52) (- 1074)
      in of_int (round_even (x / pow2 e)) * pow2 e)"

definition fl :: "rat \<Rightarrow> jsnum" where
  "fl x =
     (if x = 0 then Finite 0
      else let m = fl_pos \<bar>x\<bar>
           in if 1023 < floor_log2 m then (if 0 < x then PosInf else NegInf)
              else Finite (if 0 < x then m else - m))"

fun js_div :: "jsnum \<Rightarrow> jsnum \<Rightarrow> jsnum" where
  "js_div (Finite x) (Finite y) =
     (if y = 0 then (if x = 0 then NaN else if 0 < x then PosInf else NegInf)
      else fl (x / y))"
| "js_div (Finite x) PosInf = Finite 0"
| "js_div (Finite x) NegInf = Finite 0"
| "js_div PosInf (Finite y) = (if y < 0 then NegInf else PosInf)"
| "js_div NegInf (Finite y) = (if y < 0 then PosInf else NegInf)"
| "js_div _ _ = NaN"

fun js_mul :: "jsnum \<Rightarrow> jsnum \<Rightarrow> jsnum" where
  "js_mul (Finite x) (Finite y) = fl (x * y)"
| "js_mul (Finite x) PosInf = (if x = 0 then NaN else if 0 < x then PosInf else NegInf)"
| "js_mul (Finite x) NegInf = (if x = 0 then NaN else if 0 < x then NegInf else PosInf)"
| "js_mul PosInf (Finite y) = (if y = 0 then NaN else if 0 < y then PosInf else NegInf)"
| "js_mul NegInf (Finite y) = (if y = 0 then NaN else if 0 < y then NegInf else PosInf)"
| "js_mul PosInf PosInf = PosInf"
| "js_mul PosInf NegInf = NegInf"
| "js_mul NegInf PosInf = NegInf"
| "js_mul NegInf NegInf = PosInf"
| "js_mul _ _ = NaN"

fun js_sub :: "jsnum \<Rightarrow> jsnum \<Rightarrow> jsnum" where
  "js_sub (Finite x) (Finite y) = fl (x - y)"
| "js_sub (Finite x) PosInf = NegInf"
| "js_sub (Finite x) NegInf = PosInf"
| "js_sub PosInf (Finite y) = PosInf"
| "js_sub NegInf (Finite y) = NegInf"
| "js_sub PosInf NegInf = PosInf"
| "js_sub NegInf PosInf = NegInf"
| "js_sub _ _ = NaN"

text \<open>\<^verbatim>\<open>v > 0\<close> on a number: false on NaN.\<close>

fun js_gt0 :: "jsnum \<Rightarrow> bool" where
  "js_gt0 (Finite x) = (0 < x)"
| "js_gt0 PosInf = True"
| "js_gt0 _ = False"

text \<open>
  A rate field holds either the number 0 it is initialised with, or the text
  \<^verbatim>\<open>x.toFixed(1)\<close> of a double \<open>x\<close>. The text is kept as the double it was printed
  from: \<open>rate_text\<close> gives its characters and \<open>rate_number\<close> the number JavaScript
  reads back from it.

  \<^verbatim>\<open>toFixed(1)\<close> prints NaN and the infinities by name; below \<open>10^21\<close> in magnitude it
  prints the integer \<open>n\<close> nearest to ten times the magnitude (the larger one on a tie)
  with a point before its last digit, after the sign. From \<open>10^21\<close> on it prints the
  exponent form of Number::toString, whose characters are not modelled (\<open>None\<close>); that
  text reads back as the same double.
\<close>

datatype rate = Number0 | ToFixed1 jsnum

definition tenths :: "rat \<Rightarrow> nat" where
  "tenths x = nat \<lfloor>10 * x + 1 / 2\<rfloor>"

definition one_decimal :: "nat \<Rightarrow> string" where
  "one_decimal n = decimal (n div 10) @ ''.'' @ decimal (n mod 10)"

fun rate_text :: "rate \<Rightarrow> string option" where
  "rate_text Number0 = Some ''0''"
| "rate_text (ToFixed1 NaN) = Some ''NaN''"
| "rate_text (ToFixed1 PosInf) = Some ''Infinity''"
| "rate_text (ToFixed1 NegInf) = Some ''-Infinity''"
| "rate_text (ToFixed1 (Finite x)) =
     (if 10 ^ 21 \<le> \<bar>x\<bar> then None
      else Some ((if x < 0 then ''-'' else []) @ one_decimal (tenths \<bar>x\<bar>)))"

text \<open>ToNumber of a rate field, as \<^verbatim>\<open>r.combinedRate > 0\<close> applies it; \<^verbatim>\<open>parseFloat\<close>
  reads the same number from each of these texts.\<close>

fun rate_number :: "rate \<Rightarrow> jsnum" where
  "rate_number Number0 = Finite 0"
| "rate_number (ToFixed1 (Finite x)) =
     (if 10 ^ 21 \<le> \<bar>x\<bar> then fl x
      else fl ((if x < 0 then - 1 else 1) * of_nat (tenths \<bar>x\<bar>) / 10))"
| "rate_number (ToFixed1 v) = v"

definition parseFloat :: "rate \<Rightarrow> jsnum" where
  "parseFloat r = rate_number r"

section \<open>GeoRecords and the normalisation of rows\<close>

record georecord =
  geoID :: string
  geoLevel :: string
  geoType :: "cell option"
  geoDisplayLabel :: "cell option"
  state :: "cell option"
  stateAbbr :: "cell option"
  county :: "cell option"
  year :: "cell option"
  totalHouseholds :: int
  povertyHouseholds :: int
  aliceHouseholds :: int
  aboveAliceHouseholds :: int
  povertyRate :: rate
  aliceRate :: rate
  combinedRate :: rate
  povertyHH_Black :: "int option"
  povertyHH_Hispanic :: "int option"
  povertyHH_White :: "int option"
  aliceHH_Black :: "int option"
  aliceHH_Hispanic :: "int option"
  aliceHH_White :: "int option"
  dataSource :: string

text \<open>\<^verbatim>\<open>((a / b) * 100).toFixed(1)\<close> on two integers.\<close>

definition percent :: "int \<Rightarrow> int \<Rightarrow> rate" where
  "percent a b = ToFixed1 (js_mul (js_div (Finite (of_int a)) (Finite (of_int b))) (Finite 100))"

text \<open>The block under \<^verbatim>\<open>// Calculate rates\<close>, the same in both sheets.\<close>

definition calculateRates :: "georecord \<Rightarrow> georecord" where
  "calculateRates r =
     (if 0 < totalHouseholds r
      then r\<lparr>povertyRate := percent (povertyHouseholds r) (totalHouseholds r),
             aliceRate := percent (aliceHouseholds r) (totalHouseholds r),
             combinedRate := percent (povertyHouseholds r + aliceHouseholds r) (totalHouseholds r)\<rparr>
      else r)"

text \<open>The callback of \<^verbatim>\<open>countyData.forEach\<close>: \<open>None\<close> when the row has no truthy
  \<^verbatim>\<open>GEO id2\<close> and nothing is pushed. A county record has no \<^verbatim>\<open>geoType\<close> property.\<close>

definition countyRecord :: "rawrow \<Rightarrow> georecord option" where
  "countyRecord row =
     (if truthy (row ''GEO id2'')
      then Some (calculateRates
        \<lparr>geoID = padStart 5 (CHR ''0'') (ToString (row ''GEO id2'')),
         geoLevel = ''county'',
         geoType = None,
         geoDisplayLabel = or_else (row ''GEO display_label'') (row ''County''),
         state = row ''State'',
         stateAbbr = row ''State Abbr'',
         county = row ''County'',
         year = row ''Year'',
         totalHouseholds = parseInt_or_0 (row ''Households''),
         povertyHouseholds = parseInt_or_0 (row ''Poverty Households''),
         aliceHouseholds = parseInt_or_0 (row ''ALICE Households''),
         aboveAliceHouseholds = parseInt_or_0 (row ''Above ALICE Households''),
         povertyRate = Number0,
         aliceRate = Number0,
         combinedRate = Number0,
         povertyHH_Black = parseInt_or_null (row ''Poverty HH Black''),
         povertyHH_Hispanic = parseInt_or_null (row ''Poverty HH Hispanic''),
         povertyHH_White = parseInt_or_null (row ''Poverty HH White''),
         aliceHH_Black = parseInt_or_null (row ''ALICE HH Black''),
         aliceHH_Hispanic = parseInt_or_null (row ''ALICE HH Hispanic''),
         aliceHH_White = parseInt_or_null (row ''ALICE HH White''),
         dataSource = ''County Sheet''\<rparr>)
      else None)"

text \<open>
  The level of a Subcounty row. \<^verbatim>\<open>row['Type'].toLowerCase()\<close> exists on text only: a
  truthy \<^verbatim>\<open>Type\<close> that is a number or a boolean raises a TypeError.
\<close>

definition typeLevel :: "cell option \<Rightarrow> error + string" where
  "typeLevel typ =
     (if truthy typ
      then (case typ of
              Some (CStr t) \<Rightarrow>
                Inr (if str_includes (toLowerCase t) ''city'' then ''city''
                     else if str_includes (toLowerCase t) ''town'' then ''town''
                     else if str_includes (toLowerCase t) ''cdp'' then ''cdp''
                     else if str_includes (toLowerCase t) ''tract'' then ''tract''
                     else ''subcounty'')
            | _ \<Rightarrow> Inl TypeError)
      else Inr ''subcounty'')"

definition subcountyLevel :: "cell option \<Rightarrow> string \<Rightarrow> error + string" where
  "subcountyLevel typ gid =
     (case typeLevel typ of
        Inl e \<Rightarrow> Inl e
      | Inr l \<Rightarrow> Inr (if \<not> truthy typ \<and> length gid = 11 then ''tract'' else l))"

text \<open>The callback of \<^verbatim>\<open>subcountyData.forEach\<close>. A subcounty record has no
  \<^verbatim>\<open>stateAbbr\<close> and no demographic property.\<close>

definition subcountyRecord :: "rawrow \<Rightarrow> error + georecord option" where
  "subcountyRecord row =
     (if truthy (row ''GEO id2'')
      then (case subcountyLevel (row ''Type'') (ToString (row ''GEO id2'')) of
              Inl e \<Rightarrow> Inl e
            | Inr l \<Rightarrow> Inr (Some (calculateRates
                \<lparr>geoID = ToString (row ''GEO id2''),
                 geoLevel = l,
                 geoType = or_else (row ''Type'') (Some (CStr ''subcounty'')),
                 geoDisplayLabel = row ''GEO display_label'',
                 state = row ''State'',
                 stateAbbr = None,
                 county = or_else (row ''County'') (Some CNull),
                 year = row ''Year'',
                 totalHouseholds = parseInt_or_0 (row ''Households''),
                 povertyHouseholds = parseInt_or_0 (row ''Poverty Households''),
                 aliceHouseholds = parseInt_or_0 (row ''ALICE Households''),
                 aboveAliceHouseholds = parseInt_or_0 (row ''Above ALICE Households''),
                 povertyRate = Number0,
                 aliceRate = Number0,
                 combinedRate = Number0,
                 povertyHH_Black = None,
                 povertyHH_Hispanic = None,
                 povertyHH_White = None,
                 aliceHH_Black = None,
                 aliceHH_Hispanic = None,
                 aliceHH_White = None,
                 dataSource = ''Subcounty Sheet''\<rparr>)))
      else Inr None)"

section \<open>Building the master database\<close>

text \<open>
  A workbook maps a sheet name to the rows \<^verbatim>\<open>sheet_to_json\<close> yields for it, in file
  order. The data directory is the list of its file names, each with what
  \<^verbatim>\<open>XLSX.readFile\<close> does on it: \<open>None\<close> when it throws because the file cannot be
  opened or parsed. The console output and the \<^verbatim>\<open>geoStats\<close> counters are left out.
\<close>

type_synonym workbook = "string \<Rightarrow> rawrow list option"

type_synonym directory = "(string \<times> workbook option) list"

definition endsWith :: "string \<Rightarrow> string \<Rightarrow> bool" where
  "endsWith s k = suffix k s"

text \<open>\<^verbatim>\<open>subcountyData.forEach\<close>: each emitted record is pushed; an exception ends the loop.\<close>

fun subcountyRows :: "rawrow list \<Rightarrow> georecord list \<Rightarrow> error + georecord list" where
  "subcountyRows [] db = Inr db"
| "subcountyRows (row # rows) db =
     (case subcountyRecord row of
        Inl e \<Rightarrow> Inl e
      | Inr None \<Rightarrow> subcountyRows rows db
      | Inr (Some r) \<Rightarrow> subcountyRows rows (db @ [r]))"

definition countyRows :: "rawrow list \<Rightarrow> georecord list \<Rightarrow> georecord list" where
  "countyRows rows db = db @ List.map_filter countyRecord rows"

definition processWorkbook :: "workbook \<Rightarrow> georecord list \<Rightarrow> error + georecord list" where
  "processWorkbook wb db =
     (let db1 = (case wb ''County'' of None \<Rightarrow> db | Some rows \<Rightarrow> countyRows rows db)
      in case wb ''Subcounty'' of None \<Rightarrow> Inr db1 | Some rows \<Rightarrow> subcountyRows rows db1)"

text \<open>The loop \<^verbatim>\<open>for (const file of excelFiles)\<close>: there is no \<^verbatim>\<open>try\<close> inside it, so
  the exception of \<^verbatim>\<open>XLSX.readFile\<close> leaves the loop and the function.\<close>

fun processFiles :: "directory \<Rightarrow> georecord list \<Rightarrow> error + georecord list" where
  "processFiles [] db = Inr db"
| "processFiles ((name, None) # files) db = Inl SourceReadError"
| "processFiles ((name, Some wb) # files) db =
     (case processWorkbook wb db of
        Inl e \<Rightarrow> Inl e
      | Inr db' \<Rightarrow> processFiles files db')"

text \<open>The value returned is the array that was written to the CSV and JSON files just
  before; an exception reaches the caller before anything is written.\<close>

definition buildMasterDatabase :: "directory \<Rightarrow> error + georecord list" where
  "buildMasterDatabase dir =
     processFiles (filter (\<lambda>f. endsWith (fst f) ''.xlsx'') dir) []"

section \<open>Aggregated statistics\<close>

record national_totals =
  n_totalHouseholds :: int
  n_povertyHouseholds :: int
  n_aliceHouseholds :: int
  n_aboveAliceHouseholds :: int

record national_stats = national_totals +
  n_povertyRate :: rate
  n_aliceRate :: rate
  n_combinedRate :: rate

record state_entry =
  s_totalHouseholds :: int
  s_povertyHouseholds :: int
  s_aliceHouseholds :: int
  s_counties :: "cell option list"

record extreme =
  x_location :: string
  x_combinedRate :: rate
  x_povertyRate :: rate
  x_aliceRate :: rate
  x_totalHouseholds :: int

text \<open>The \<^verbatim>\<open>byCounty\<close> property stays the empty object and is left out.\<close>

record aggregated =
  national :: national_stats
  byState :: "string \<Rightarrow> state_entry option"
  highestCombinedRate :: "extreme list"
  lowestCombinedRate :: "extreme list"

text \<open>
  \<^verbatim>\<open>aggregated.byState\<close> is a plain object, so a key that names a member of
  \<^verbatim>\<open>Object.prototype\<close> reads as that inherited member: the entry is not created, and
  \<^verbatim>\<open>.counties.push\<close> on the inherited object raises a TypeError.
\<close>

definition object_prototype_names :: "string list" where
  "object_prototype_names =
     [''constructor'', ''__proto__'', ''hasOwnProperty'', ''isPrototypeOf'',
      ''propertyIsEnumerable'', ''toLocaleString'', ''toString'', ''valueOf'',
      ''__defineGetter__'', ''__defineSetter__'', ''__lookupGetter__'', ''__lookupSetter__'']"

definition new_state_entry :: state_entry where
  "new_state_entry =
     \<lparr>s_totalHouseholds = 0, s_povertyHouseholds = 0, s_aliceHouseholds = 0, s_counties = []\<rparr>"

type_synonym rollups = "national_totals \<times> (string \<Rightarrow> state_entry option)"

text \<open>The callback of \<^verbatim>\<open>database.forEach\<close>.\<close>

definition addRecord :: "georecord \<Rightarrow> rollups \<Rightarrow> error + rollups" where
  "addRecord r acc =
     (if geoLevel r = ''county''
      then let n = fst acc; bs = snd acc;
               n' = n\<lparr>n_totalHouseholds := n_totalHouseholds n + totalHouseholds r,
                      n_povertyHouseholds := n_povertyHouseholds n + povertyHouseholds r,
                      n_aliceHouseholds := n_aliceHouseholds n + aliceHouseholds r,
                      n_aboveAliceHouseholds := n_aboveAliceHouseholds n + aboveAliceHouseholds r\<rparr>;
               key = ToString (state r)
           in if key \<in> set object_prototype_names then Inl TypeError
              else let e = (case bs key of None \<Rightarrow> new_state_entry | Some e \<Rightarrow> e)
                   in Inr (n', bs(key \<mapsto>
                        e\<lparr>s_totalHouseholds := s_totalHouseholds e + totalHouseholds r,
                          s_povertyHouseholds := s_povertyHouseholds e + povertyHouseholds r,
                          s_aliceHouseholds := s_aliceHouseholds e + aliceHouseholds r,
                          s_counties := s_counties e @ [county r]\<rparr>))
      else Inr acc)"

fun accumulate :: "georecord list \<Rightarrow> rollups \<Rightarrow> error + rollups" where
  "accumulate [] acc = Inr acc"
| "accumulate (r # rs) acc =
     (case addRecord r acc of Inl e \<Rightarrow> Inl e | Inr acc' \<Rightarrow> accumulate rs acc')"

definition no_rollups :: rollups where
  "no_rollups =
     (\<lparr>n_totalHouseholds = 0, n_povertyHouseholds = 0, n_aliceHouseholds = 0,
       n_aboveAliceHouseholds = 0\<rparr>, Map.empty)"

text \<open>
  \<^verbatim>\<open>Array.prototype.sort\<close> is stable, and a comparator result that is NaN counts as 0.
  The comparator puts \<open>b\<close> before \<open>a\<close> when \<^verbatim>\<open>parseFloat(b.combinedRate) -
  parseFloat(a.combinedRate)\<close> is positive. The sort is modelled by stable insertion: every
  stable sort yields the same array when the comparator is a consistent ordering.
\<close>

definition rateDifference :: "georecord \<Rightarrow> georecord \<Rightarrow> jsnum" where
  "rateDifference a b = js_sub (parseFloat (combinedRate b)) (parseFloat (combinedRate a))"

fun sort_insert :: "('a \<Rightarrow> 'a \<Rightarrow> jsnum) \<Rightarrow> 'a \<Rightarrow> 'a list \<Rightarrow> 'a list" where
  "sort_insert cmp x [] = [x]"
| "sort_insert cmp x (y # ys) =
     (if js_gt0 (cmp x y) then y # sort_insert cmp x ys else x # y # ys)"

definition js_sort :: "('a \<Rightarrow> 'a \<Rightarrow> jsnum) \<Rightarrow> 'a list \<Rightarrow> 'a list" where
  "js_sort cmp xs = foldr (sort_insert cmp) xs []"

definition sortedByRate :: "georecord list \<Rightarrow> georecord list" where
  "sortedByRate database =
     js_sort rateDifference
       (filter (\<lambda>r. geoLevel r = ''county'' \<and> js_gt0 (rate_number (combinedRate r))) database)"

definition summary :: "georecord \<Rightarrow> extreme" where
  "summary r =
     \<lparr>x_location = ToString (county r) @ '', '' @ ToString (or_else (stateAbbr r) (state r)),
      x_combinedRate = combinedRate r,
      x_povertyRate = povertyRate r,
      x_aliceRate = aliceRate r,
      x_totalHouseholds = totalHouseholds r\<rparr>"

text \<open>\<^verbatim>\<open>slice(0, 10)\<close> and \<^verbatim>\<open>slice(-10)\<close>.\<close>

definition first10 :: "'a list \<Rightarrow> 'a list" where
  "first10 xs = take 10 xs"

definition last10 :: "'a list \<Rightarrow> 'a list" where
  "last10 xs = drop (length xs - 10) xs"

definition nationalRates :: "national_totals \<Rightarrow> national_stats" where
  "nationalRates n =
     national_totals.extend n
       (national_stats.fields
          (percent (n_povertyHouseholds n) (n_totalHouseholds n))
          (percent (n_aliceHouseholds n) (n_totalHouseholds n))
          (percent (n_povertyHouseholds n + n_aliceHouseholds n) (n_totalHouseholds n)))"

definition createAggregatedStats :: "georecord list \<Rightarrow> error + aggregated" where
  "createAggregatedStats database =
     (case accumulate database no_rollups of
        Inl e \<Rightarrow> Inl e
      | Inr acc \<Rightarrow>
          Inr \<lparr>national = nationalRates (fst acc),
               byState = snd acc,
               highestCombinedRate = map summary (first10 (sortedByRate database)),
               lowestCombinedRate = map summary (rev (last10 (sortedByRate database)))\<rparr>)"

text \<open>
  \<^verbatim>\<open>main\<close> catches whatever the two stages throw and logs it. The master files are
  written at the end of the first stage and the statistics file at the end of the second.
\<close>

record run =
  masterDatabaseFile :: "georecord list option"
  aggregatedStatsFile :: "aggregated option"
  loggedError :: "error option"

definition main :: "directory \<Rightarrow> run" where
  "main dir =
     (case buildMasterDatabase dir of
        Inl e \<Rightarrow> \<lparr>masterDatabaseFile = None, aggregatedStatsFile = None, loggedError = Some e\<rparr>
      | Inr db \<Rightarrow>
          (case createAggregatedStats db of
             Inl e \<Rightarrow> \<lparr>masterDatabaseFile = Some db, aggregatedStatsFile = None,
                       loggedError = Some e\<rparr>
           | Inr st \<Rightarrow> \<lparr>masterDatabaseFile = Some db, aggregatedStatsFile = Some st,
                        loggedError = None\<rparr>))"

section \<open>The level policy in the specification's words\<close>

text \<open>
  The specification gives the level of a Subcounty row as an ordered rule list: the
  lower-cased \<^verbatim>\<open>Type\<close> is searched for each keyword in turn and the first keyword found
  is the level.
\<close>

definition level_keywords :: "string list" where
  "level_keywords = [''city'', ''town'', ''cdp'', ''tract'']"

definition first_match_level :: "string \<Rightarrow> string" where
  "first_match_level t =
     (case find (\<lambda>k. sublist k (toLowerCase t)) level_keywords of
        Some k \<Rightarrow> k
      | None \<Rightarrow> ''subcounty'')"

section \<open>The rates in the specification's words\<close>

text \<open>
  A rate text shows the value \<open>v\<close> at one-decimal precision when it is the numeral of
  \<open>n/10\<close> or of \<open>-n/10\<close> for a natural number \<open>n\<close>, and that number is nearest to
  \<open>v\<close>: no further from it than half a tenth. The reference formula is
  \<open>100 * a / b\<close> on the exact counts.
\<close>

definition shows_rounded :: "rate \<Rightarrow> rat \<Rightarrow> bool" where
  "shows_rounded rt v =
     (\<exists>n. (rate_text rt = Some (one_decimal n) \<and> \<bar>of_nat n / 10 - v\<bar> \<le> 1 / 20) \<or>
          (rate_text rt = Some (''-'' @ one_decimal n) \<and> \<bar>- of_nat n / 10 - v\<bar> \<le> 1 / 20))"

definition formula :: "int \<Rightarrow> int \<Rightarrow> rat" where
  "formula a b = 100 * of_int a / of_int b"

text \<open>The finite doubles are multiples of \<open>2^-1074\<close>.\<close>

definition is_double :: "rat \<Rightarrow> bool" where
  "is_double q = (\<exists>k::int. q = of_int k * pow2 (- 1074))"

section \<open>The extremes in the specification's words\<close>

text \<open>
  The numeric order of JavaScript on numbers (nothing is below or above NaN), the number
  a record is ranked by, and the records that pass the filter. \<open>rank\<close> embeds the numbers
  other than NaN into a linear order.
\<close>

fun num_less :: "jsnum \<Rightarrow> jsnum \<Rightarrow> bool" where
  "num_less (Finite x) (Finite y) = (x < y)"
| "num_less (Finite x) PosInf = True"
| "num_less NegInf (Finite y) = True"
| "num_less NegInf PosInf = True"
| "num_less _ _ = False"

definition rate_key :: "georecord \<Rightarrow> jsnum" where
  "rate_key r = rate_number (combinedRate r)"

definition eligible :: "georecord \<Rightarrow> bool" where
  "eligible r = (geoLevel r = ''county'' \<and> js_gt0 (rate_key r))"

fun rank :: "jsnum \<Rightarrow> nat \<times> rat" where
  "rank (Finite x) = (1, x)"
| "rank PosInf = (2, 0)"
| "rank NegInf = (0, 0)"
| "rank NaN = (3, 0)"

section \<open>The aggregation on a store\<close>

text \<open>
  To state which arrays the aggregation writes, the database is placed in a store:
  GeoRecord objects and arrays of references to them, each under an address.
  \<^verbatim>\<open>filter\<close> and \<^verbatim>\<open>slice\<close> allocate a new array; \<^verbatim>\<open>sort\<close> and \<^verbatim>\<open>reverse\<close> overwrite
  the array they are called on; \<^verbatim>\<open>forEach\<close> and \<^verbatim>\<open>map\<close> only read GeoRecords (the
  summaries that \<^verbatim>\<open>map\<close> builds are fresh objects of another shape, returned as
  values). No statement of \<^verbatim>\<open>createAggregatedStats\<close> assigns to a property of a
  GeoRecord, so no operation here writes \<open>objects\<close>.
\<close>

type_synonym ref = nat

record heap =
  objects :: "ref \<Rightarrow> georecord option"
  arrays :: "ref \<Rightarrow> ref list option"
  next_ref :: ref

definition elements :: "heap \<Rightarrow> ref \<Rightarrow> ref list" where
  "elements h a = (case arrays h a of None \<Rightarrow> [] | Some xs \<Rightarrow> xs)"

definition new_array :: "ref list \<Rightarrow> heap \<Rightarrow> ref \<times> heap" where
  "new_array xs h =
     (next_ref h, h\<lparr>arrays := (arrays h)(next_ref h \<mapsto> xs), next_ref := Suc (next_ref h)\<rparr>)"

definition set_array :: "ref \<Rightarrow> ref list \<Rightarrow> heap \<Rightarrow> heap" where
  "set_array a xs h = h\<lparr>arrays := (arrays h)(a \<mapsto> xs)\<rparr>"

definition array_filter :: "(ref \<Rightarrow> bool) \<Rightarrow> ref \<Rightarrow> heap \<Rightarrow> ref \<times> heap" where
  "array_filter p a h = new_array (filter p (elements h a)) h"

definition array_sort :: "(ref \<Rightarrow> ref \<Rightarrow> jsnum) \<Rightarrow> ref \<Rightarrow> heap \<Rightarrow> heap" where
  "array_sort cmp a h = set_array a (js_sort cmp (elements h a)) h"

definition array_slice :: "(ref list \<Rightarrow> ref list) \<Rightarrow> ref \<Rightarrow> heap \<Rightarrow> ref \<times> heap" where
  "array_slice part a h = new_array (part (elements h a)) h"

definition array_reverse :: "ref \<Rightarrow> heap \<Rightarrow> heap" where
  "array_reverse a h = set_array a (rev (elements h a)) h"

definition records_of :: "heap \<Rightarrow> ref \<Rightarrow> georecord list option" where
  "records_of h a =
     (case arrays h a of
        None \<Rightarrow> None
      | Some refs \<Rightarrow>
          if \<forall>r \<in> set refs. objects h r \<noteq> None
          then Some (map (\<lambda>r. the (objects h r)) refs) else None)"

text \<open>Lines 241 to 259: the filtered copy, its sort in place, and the two slices.\<close>

definition extremes_in_heap :: "ref \<Rightarrow> heap \<Rightarrow> (extreme list \<times> extreme list) \<times> heap" where
  "extremes_in_heap database h =
     (let get = (\<lambda>r. the (objects h r));
          (sorted, h1) = array_filter
             (\<lambda>r. geoLevel (get r) = ''county'' \<and> js_gt0 (rate_number (combinedRate (get r))))
             database h;
          h2 = array_sort (\<lambda>a b. rateDifference (get a) (get b)) sorted h1;
          (top, h3) = array_slice first10 sorted h2;
          highest = map (\<lambda>r. summary (get r)) (elements h3 top);
          (bottom, h4) = array_slice last10 sorted h3;
          h5 = array_reverse bottom h4;
          lowest = map (\<lambda>r. summary (get r)) (elements h5 bottom)
      in ((highest, lowest), h5))"

definition createAggregatedStats_heap :: "ref \<Rightarrow> heap \<Rightarrow> (error + aggregated) \<times> heap" where
  "createAggregatedStats_heap database h =
     (case records_of h database of
        None \<Rightarrow> (Inl TypeError, h)
      | Some rs \<Rightarrow>
          (case accumulate rs no_rollups of
             Inl e \<Rightarrow> (Inl e, h)
           | Inr acc \<Rightarrow>
               (let (hl, h') = extremes_in_heap database h
                in (Inr \<lparr>national = nationalRates (fst acc), byState = snd acc,
                         highestCombinedRate = fst hl, lowestCombinedRate = snd hl\<rparr>, h'))))"

text \<open>No array lives at or above the next free address.\<close>

definition allocated :: "heap \<Rightarrow> bool" where
  "allocated h = (\<forall>a. next_ref h \<le> a \<longrightarrow> arrays h a = None)"

section \<open>The rollups in the specification's words\<close>

text \<open>The county records, those of one state (under the key its name is stored by),
  and the sum of a field over a list of records.\<close>

definition is_county :: "georecord \<Rightarrow> bool" where
  "is_county r = (geoLevel r = ''county'')"


definition total_of :: "(georecord \<Rightarrow> int) \<Rightarrow> georecord list \<Rightarrow> int" where
  "total_of field rs = sum_list (map field rs)"


section \<open>The demographic columns\<close>


section \<open>Example inputs\<close>

subsection \<open>Rows\<close>

definition row_1001 :: rawrow where
  "row_1001 = Map.empty(''GEO id2'' \<mapsto> CNum 1001)"

definition row_123456 :: rawrow where
  "row_123456 = Map.empty(''GEO id2'' \<mapsto> CNum 123456)"

definition row_cdp :: rawrow where
  "row_cdp = Map.empty(''GEO id2'' \<mapsto> CStr ''0600135'', ''Type'' \<mapsto> CStr ''CDP'')"

definition row_cdp_spelled :: rawrow where
  "row_cdp_spelled =
     Map.empty(''GEO id2'' \<mapsto> CStr ''0600135'', ''Type'' \<mapsto> CStr ''Census Designated Place'')"

definition row_zero_households :: rawrow where
  "row_zero_households =
     Map.empty(''GEO id2'' \<mapsto> CNum 1001, ''Households'' \<mapsto> CNum 0,
               ''Poverty Households'' \<mapsto> CNum 7)"


definition row_rates :: rawrow where
  "row_rates =
     Map.empty(''GEO id2'' \<mapsto> CNum 1001, ''Households'' \<mapsto> CNum 1000,
               ''Poverty Households'' \<mapsto> CNum 150, ''ALICE Households'' \<mapsto> CNum 300)"

definition row_large :: rawrow where
  "row_large =
     Map.empty(''GEO id2'' \<mapsto> CNum 1001, ''Households'' \<mapsto> CNum 37614693454921,
               ''Poverty Households'' \<mapsto> CNum 9761012951552)"

subsection \<open>A directory with an unreadable file\<close>

definition workbook_1001 :: workbook where
  "workbook_1001 = Map.empty(''County'' \<mapsto> [row_1001])"

definition dir_with_unreadable :: directory where
  "dir_with_unreadable =
     [(''alabama_data.xlsx'', Some workbook_1001),
      (''broken_data.xlsx'', None),
      (''texas_data.xlsx'', Some workbook_1001)]"

subsection \<open>Records, databases and a store\<close>

text \<open>A record of a given level, state and county with the given household counts.\<close>

definition sample :: "string \<Rightarrow> string \<Rightarrow> string \<Rightarrow> int \<Rightarrow> int \<Rightarrow> int \<Rightarrow> georecord" where
  "sample level st cty t p a =
     calculateRates
       \<lparr>geoID = ''00000'', geoLevel = level, geoType = None,
        geoDisplayLabel = Some (CStr cty), state = Some (CStr st), stateAbbr = None,
        county = Some (CStr cty), year = Some (CNum 2023),
        totalHouseholds = t, povertyHouseholds = p, aliceHouseholds = a,
        aboveAliceHouseholds = t - p - a,
        povertyRate = Number0, aliceRate = Number0, combinedRate = Number0,
        povertyHH_Black = None, povertyHH_Hispanic = None, povertyHH_White = None,
        aliceHH_Black = None, aliceHH_Hispanic = None, aliceHH_White = None,
        dataSource = ''County Sheet''\<rparr>"


definition four_counties :: "georecord list" where
  "four_counties =
     [sample ''county'' ''Utah'' ''A'' 100 4 6,
      sample ''county'' ''Utah'' ''B'' 100 20 30,
      sample ''county'' ''Utah'' ''C'' 100 25 25,
      sample ''county'' ''Utah'' ''D'' 100 2 3]"

definition sample_heap :: heap where
  "sample_heap =
     \<lparr>objects = Map.empty(0 \<mapsto> sample ''county'' ''Utah'' ''A'' 100 4 6,
                          1 \<mapsto> sample ''county'' ''Utah'' ''B'' 100 20 30),
      arrays = Map.empty(0 \<mapsto> [0, 1]),
      next_ref = 1\<rparr>"

section \<open>Basic facts\<close>

lemma calculateRates_keeps:
  "geoID (calculateRates r) = geoID r"
  "geoLevel (calculateRates r) = geoLevel r"
  "totalHouseholds (calculateRates r) = totalHouseholds r"
  "povertyHouseholds (calculateRates r) = povertyHouseholds r"
  "aliceHouseholds (calculateRates r) = aliceHouseholds r"
  "aboveAliceHouseholds (calculateRates r) = aboveAliceHouseholds r"
  "povertyHH_Black (calculateRates r) = povertyHH_Black r"
  "povertyHH_Hispanic (calculateRates r) = povertyHH_Hispanic r"
  "povertyHH_White (calculateRates r) = povertyHH_White r"
  "aliceHH_Black (calculateRates r) = aliceHH_Black r"
  "aliceHH_Hispanic (calculateRates r) = aliceHH_Hispanic r"
  "aliceHH_White (calculateRates r) = aliceHH_White r"
  by (simp_all add: calculateRates_def)

lemma str_includes_sublist: "str_includes s k = sublist k s"
  by (induction s) (simp_all add: sublist_Cons_right)

section \<open>The county identifier\<close>

text \<open>
  C5, as the code has it. A County row with a truthy \<^verbatim>\<open>GEO id2\<close> yields a county record
  whose geoID is the identifier's text with zeros put in front of it up to a length of 5.
  \<^verbatim>\<open>padStart\<close> never cuts: the geoID is as long as the text when that is longer than 5,
  and exactly 5 characters long when the text has at most 5.
\<close>

theorem county_geoID_padStart:
  "countyRecord row = Some r \<Longrightarrow>
     geoLevel r = ''county'' \<and>
     (\<exists>k. geoID r = replicate k (CHR ''0'') @ ToString (row ''GEO id2'')) \<and>
     length (geoID r) = max 5 (length (ToString (row ''GEO id2''))) \<and>
     (length (ToString (row ''GEO id2'')) \<le> 5 \<longrightarrow> length (geoID r) = 5)"
  by (auto simp: countyRecord_def calculateRates_keeps padStart_def split: if_splits)

text \<open>The raw identifier 1001 becomes the text 01001, of length 5.\<close>

theorem county_geoID_padStart_witness:
  "\<exists>r. countyRecord row_1001 = Some r \<and> geoID r = ''01001'' \<and> length (geoID r) = 5"
proof -
  have "truthy (row_1001 ''GEO id2'')"
    by (simp add: row_1001_def)
  then obtain r where r: "countyRecord row_1001 = Some r"
    by (simp add: countyRecord_def)
  have s: "ToString (row_1001 ''GEO id2'') = ''1001''"
    by (simp add: row_1001_def int_toString_def decimal.simps digit_char_def)
  from county_geoID_padStart [OF r] s
  have "length (geoID r) = 5" and "\<exists>k. geoID r = replicate k (CHR ''0'') @ ''1001''"
    by simp_all
  then have "geoID r = ''01001''"
    by (auto simp: numeral_eq_Suc)
  with r show ?thesis by simp
qed

text \<open>C5 as stated fails: the six-digit identifier 123456 on a County sheet gives a
  county record whose geoID has six characters.\<close>

theorem county_geoID_length_counterexample:
  "map_option geoID (countyRecord row_123456) = Some ''123456'' \<and>
   map_option geoLevel (countyRecord row_123456) = Some ''county'' \<and>
   length ''123456'' \<noteq> (5::nat)"
  by (simp add: countyRecord_def calculateRates_keeps padStart_def row_123456_def
      int_toString_def decimal.simps digit_char_def)

section \<open>The level of a Subcounty row\<close>

lemma typeLevel_text:
  "t \<noteq> [] \<Longrightarrow> typeLevel (Some (CStr t)) = Inr (first_match_level t)"
  by (simp add: typeLevel_def first_match_level_def level_keywords_def str_includes_sublist)

lemma typeLevel_falsy: "\<not> truthy typ \<Longrightarrow> typeLevel typ = Inr ''subcounty''"
  by (simp add: typeLevel_def)

text \<open>A truthy \<^verbatim>\<open>Type\<close> that is not text (a number other than 0, or true) has no
  \<^verbatim>\<open>toLowerCase\<close>: the row raises a TypeError, which ends the run like a read error.\<close>

lemma subcounty_type_error:
  assumes "truthy (row ''GEO id2'')" and "truthy (row ''Type'')"
    and "\<And>t. row ''Type'' \<noteq> Some (CStr t)"
  shows "subcountyRecord row = Inl TypeError"
proof -
  from assms(2,3) have "typeLevel (row ''Type'') = Inl TypeError"
    by (cases "row ''Type''") (auto simp: typeLevel_def split: cell.splits)
  with assms(1) show ?thesis
    by (simp add: subcountyRecord_def subcountyLevel_def)
qed

text \<open>
  C3, as the code has it. A Subcounty row with a truthy \<^verbatim>\<open>GEO id2\<close> whose \<^verbatim>\<open>Type\<close> is
  text or falsy (missing, empty, 0, false, null) yields a record with the identifier's
  text as geoID, and its level follows the two-tier policy: a truthy \<^verbatim>\<open>Type\<close> gives the
  first of city, town, cdp, tract that occurs in its lower-cased text, and subcounty when
  none does; a falsy \<^verbatim>\<open>Type\<close> gives tract when the identifier has exactly 11 characters
  and subcounty otherwise.
\<close>

theorem subcounty_level_first_match:
  assumes "truthy (row ''GEO id2'')"
    and "\<not> truthy (row ''Type'') \<or> (\<exists>t. row ''Type'' = Some (CStr t))"
  shows "\<exists>r. subcountyRecord row = Inr (Some r) \<and>
           geoID r = ToString (row ''GEO id2'') \<and>
           geoLevel r =
             (if truthy (row ''Type'')
              then (case row ''Type'' of
                      Some (CStr t) \<Rightarrow> first_match_level t
                    | _ \<Rightarrow> ''subcounty'')
              else if length (geoID r) = 11 then ''tract'' else ''subcounty'')"
proof (cases "truthy (row ''Type'')")
  case True
  with assms(2) obtain t where "row ''Type'' = Some (CStr t)" and "t \<noteq> []"
    by auto
  then show ?thesis
    using assms(1)
    by (simp add: subcountyRecord_def subcountyLevel_def typeLevel_text calculateRates_keeps)
next
  case False
  then show ?thesis
    using assms(1)
    by (simp add: subcountyRecord_def subcountyLevel_def typeLevel_falsy calculateRates_keeps)
qed

lemma toLowerCase_CDP: "toLowerCase ''CDP'' = ''cdp''"
  by code_simp

lemma toLowerCase_spelled:
  "toLowerCase ''Census Designated Place'' = ''census designated place''"
  by code_simp

text \<open>A row whose \<^verbatim>\<open>Type\<close> is the text CDP gets the level cdp.\<close>

theorem subcounty_level_first_match_witness:
  "\<exists>r. subcountyRecord row_cdp = Inr (Some r) \<and> geoID r = ''0600135'' \<and> geoLevel r = ''cdp''"
proof -
  have a: "truthy (row_cdp ''GEO id2'')"
    by (simp add: row_cdp_def)
  have b: "\<not> truthy (row_cdp ''Type'') \<or> (\<exists>t. row_cdp ''Type'' = Some (CStr t))"
    by (simp add: row_cdp_def)
  have c: "first_match_level ''CDP'' = ''cdp''"
    by (simp add: first_match_level_def level_keywords_def toLowerCase_CDP sublist_code)
  have d: "row_cdp ''Type'' = Some (CStr ''CDP'')"
    "row_cdp ''GEO id2'' = Some (CStr ''0600135'')"
    by (simp_all add: row_cdp_def)
  from subcounty_level_first_match [OF a b] c show ?thesis
    by (simp add: d)
qed

text \<open>C3 as stated fails in its example: the lower-cased text of
  \<^verbatim>\<open>Census Designated Place\<close> contains none of the four keywords, so the row keeps the
  level subcounty.\<close>

theorem census_designated_place_counterexample:
  "map_sum id (map_option geoLevel) (subcountyRecord row_cdp_spelled) = Inr (Some ''subcounty'')"
  by (simp add: subcountyRecord_def subcountyLevel_def typeLevel_def row_cdp_spelled_def
      toLowerCase_spelled calculateRates_keeps)

section \<open>The division guard\<close>

lemma rates_untouched:
  "totalHouseholds r \<le> 0 \<Longrightarrow> calculateRates r = r"
  by (simp add: calculateRates_def)

text \<open>
  C8. A record emitted from either sheet with \<open>totalHouseholds = 0\<close> has its three rates
  still at the number 0 they were initialised with: the division under
  \<^verbatim>\<open>if (record.totalHouseholds > 0)\<close> was not run, so no NaN, infinity or text was stored.
\<close>

theorem zero_households_zero_rates:
  assumes "countyRecord row = Some r \<or> subcountyRecord row = Inr (Some r)"
    and "totalHouseholds r = 0"
  shows "povertyRate r = Number0 \<and> aliceRate r = Number0 \<and> combinedRate r = Number0 \<and>
         rate_number (povertyRate r) = Finite 0 \<and> rate_number (aliceRate r) = Finite 0 \<and>
         rate_number (combinedRate r) = Finite 0"
proof -
  from assms(1) obtain r0 where r: "r = calculateRates r0"
    and z: "povertyRate r0 = Number0" "aliceRate r0 = Number0" "combinedRate r0 = Number0"
    by (auto simp: countyRecord_def subcountyRecord_def split: if_splits sum.splits)
  from r assms(2) have "totalHouseholds r0 = 0"
    by (simp add: calculateRates_keeps)
  then have "r = r0"
    using r by (simp add: rates_untouched)
  with z show ?thesis by simp
qed

text \<open>A county row with 0 households and 7 poverty households keeps the rates at 0.\<close>

theorem zero_households_zero_rates_witness:
  "\<exists>r. countyRecord row_zero_households = Some r \<and> totalHouseholds r = 0 \<and>
       povertyHouseholds r = 7 \<and> povertyRate r = Number0 \<and> aliceRate r = Number0 \<and>
       combinedRate r = Number0"
proof -
  have g: "row_zero_households ''GEO id2'' = Some (CNum 1001)"
    "row_zero_households ''Households'' = Some (CNum 0)"
    "row_zero_households ''Poverty Households'' = Some (CNum 7)"
    by (simp_all add: row_zero_households_def)
  then obtain r where r: "countyRecord row_zero_households = Some r"
    by (simp add: countyRecord_def)
  then have t: "totalHouseholds r = 0" "povertyHouseholds r = 7"
    by (auto simp: countyRecord_def g calculateRates_keeps parseInt_or_0_def)
  from zero_households_zero_rates [OF disjI1 [OF r] t(1)] r t show ?thesis
    by simp
qed

section \<open>The demographic fields\<close>






section \<open>Reading the directory\<close>

lemma processFiles_unreadable:
  "(name, None) \<in> set files \<Longrightarrow> \<exists>e. processFiles files db = Inl e"
proof (induction files arbitrary: db)
  case Nil
  then show ?case by simp
next
  case (Cons f files)
  obtain n w where f: "f = (n, w)" by (cases f)
  show ?case
  proof (cases w)
    case None
    with f show ?thesis by simp
  next
    case (Some wb)
    with f Cons.prems have "(name, None) \<in> set files" by auto
    from Cons.IH [OF this] f Some show ?thesis
      by (cases "processWorkbook wb db") auto
  qed
qed

text \<open>
  C2, as the code has it. When a spreadsheet file of the directory cannot be opened or
  parsed, the exception leaves the file loop and \<^verbatim>\<open>buildMasterDatabase\<close>: the run ends
  there, \<^verbatim>\<open>main\<close> logs the error, and neither the master database (with the records of
  the files read before) nor the statistics are written.
\<close>

theorem unreadable_file_aborts_run:
  assumes "(name, None) \<in> set dir" and "endsWith name ''.xlsx''"
  shows "(\<exists>e. buildMasterDatabase dir = Inl e) \<and>
         masterDatabaseFile (main dir) = None \<and>
         aggregatedStatsFile (main dir) = None \<and>
         loggedError (main dir) \<noteq> None"
proof -
  from assms have "(name, None) \<in> set (filter (\<lambda>f. endsWith (fst f) ''.xlsx'') dir)"
    by simp
  from processFiles_unreadable [OF this] obtain e where "buildMasterDatabase dir = Inl e"
    unfolding buildMasterDatabase_def by blast
  then show ?thesis
    by (simp add: main_def)
qed

lemma endsWith_broken: "endsWith ''broken_data.xlsx'' ''.xlsx''"
  by (simp add: endsWith_def suffix_def)

theorem unreadable_file_aborts_run_witness:
  "(''broken_data.xlsx'', None) \<in> set dir_with_unreadable \<and>
   (\<exists>e. buildMasterDatabase dir_with_unreadable = Inl e) \<and>
   masterDatabaseFile (main dir_with_unreadable) = None"
proof -
  have m: "(''broken_data.xlsx'', None) \<in> set dir_with_unreadable"
    by (simp add: dir_with_unreadable_def)
  from unreadable_file_aborts_run [OF m endsWith_broken] m show ?thesis
    by auto
qed

lemma endsWith_alabama: "endsWith ''alabama_data.xlsx'' ''.xlsx''"
  by (simp add: endsWith_def suffix_def)

lemma endsWith_texas: "endsWith ''texas_data.xlsx'' ''.xlsx''"
  by (simp add: endsWith_def suffix_def)

lemma countyRecord_1001: "countyRecord row_1001 \<noteq> None"
  by (simp add: countyRecord_def row_1001_def)

text \<open>C2 as stated fails: with a readable file before and after an unreadable one, the
  first file alone yields a record, yet the run over the three files ends in the read
  error and writes no master database.\<close>

theorem unreadable_file_counterexample:
  "map_sum id length (buildMasterDatabase (take 1 dir_with_unreadable)) = Inr 1 \<and>
   buildMasterDatabase dir_with_unreadable = Inl SourceReadError \<and>
   masterDatabaseFile (main dir_with_unreadable) = None"
  using countyRecord_1001
  by (auto simp: buildMasterDatabase_def dir_with_unreadable_def endsWith_alabama endsWith_broken
      endsWith_texas main_def processWorkbook_def workbook_1001_def countyRows_def
      map_filter_simps)

section \<open>National and state rollups\<close>

lemma addRecord_other:
  "geoLevel r \<noteq> ''county'' \<Longrightarrow> addRecord r acc = Inr acc"
  by (simp add: addRecord_def)

lemma addRecord_county:
  assumes "geoLevel r = ''county''" and "addRecord r acc = Inr acc'"
  shows "n_totalHouseholds (fst acc') = n_totalHouseholds (fst acc) + totalHouseholds r"
    and "n_povertyHouseholds (fst acc') = n_povertyHouseholds (fst acc) + povertyHouseholds r"
    and "n_aliceHouseholds (fst acc') = n_aliceHouseholds (fst acc) + aliceHouseholds r"
    and "n_aboveAliceHouseholds (fst acc') =
           n_aboveAliceHouseholds (fst acc) + aboveAliceHouseholds r"
  using assms by (auto simp: addRecord_def Let_def split: if_splits)

lemma accumulate_national:
  "accumulate rs acc = Inr acc' \<Longrightarrow>
     n_totalHouseholds (fst acc') =
       n_totalHouseholds (fst acc) + total_of totalHouseholds (filter is_county rs) \<and>
     n_povertyHouseholds (fst acc') =
       n_povertyHouseholds (fst acc) + total_of povertyHouseholds (filter is_county rs) \<and>
     n_aliceHouseholds (fst acc') =
       n_aliceHouseholds (fst acc) + total_of aliceHouseholds (filter is_county rs) \<and>
     n_aboveAliceHouseholds (fst acc') =
       n_aboveAliceHouseholds (fst acc) + total_of aboveAliceHouseholds (filter is_county rs)"
proof (induction rs arbitrary: acc)
  case Nil
  then show ?case by (simp add: total_of_def)
next
  case (Cons r rs)
  show ?case
  proof (cases "geoLevel r = ''county''")
    case False
    with Cons.prems have "accumulate rs acc = Inr acc'"
      by (simp add: addRecord_other)
    from Cons.IH [OF this] False show ?thesis
      by (simp add: is_county_def)
  next
    case True
    from Cons.prems obtain acc1 where a: "addRecord r acc = Inr acc1"
      and b: "accumulate rs acc1 = Inr acc'"
      by (auto split: sum.splits)
    from Cons.IH [OF b] addRecord_county [OF True a] True show ?thesis
      by (simp add: is_county_def total_of_def)
  qed
qed





lemma accumulate_returns:
  "(\<forall>r \<in> set rs. is_county r \<longrightarrow> ToString (state r) \<notin> set object_prototype_names) \<Longrightarrow>
   \<exists>acc'. accumulate rs acc = Inr acc'"
proof (induction rs arbitrary: acc)
  case Nil
  then show ?case by simp
next
  case (Cons r rs)
  from Cons.prems have "\<exists>acc1. addRecord r acc = Inr acc1"
    by (simp add: addRecord_def Let_def is_county_def)
  then obtain acc1 where a: "addRecord r acc = Inr acc1" ..
  from Cons.prems have "\<forall>r \<in> set rs. is_county r \<longrightarrow>
      ToString (state r) \<notin> set object_prototype_names"
    by simp
  from Cons.IH [OF this, of acc1] a show ?case by simp
qed

lemma createAggregatedStats_returns:
  "(\<forall>r \<in> set database. is_county r \<longrightarrow> ToString (state r) \<notin> set object_prototype_names) \<Longrightarrow>
   \<exists>agg. createAggregatedStats database = Inr agg"
  using accumulate_returns [of database no_rollups]
  by (auto simp: createAggregatedStats_def)

lemma nationalRates_totals:
  "n_totalHouseholds (nationalRates n) = n_totalHouseholds n"
  "n_povertyHouseholds (nationalRates n) = n_povertyHouseholds n"
  "n_aliceHouseholds (nationalRates n) = n_aliceHouseholds n"
  "n_aboveAliceHouseholds (nationalRates n) = n_aboveAliceHouseholds n"
  by (simp_all add: nationalRates_def national_totals.defs national_stats.defs)

lemma nationalRates_rates:
  "n_povertyRate (nationalRates n) = percent (n_povertyHouseholds n) (n_totalHouseholds n)"
  "n_aliceRate (nationalRates n) = percent (n_aliceHouseholds n) (n_totalHouseholds n)"
  "n_combinedRate (nationalRates n) =
     percent (n_povertyHouseholds n + n_aliceHouseholds n) (n_totalHouseholds n)"
  by (simp_all add: nationalRates_def national_totals.defs national_stats.defs)


lemma sample_fields:
  "geoLevel (sample l s c t p a) = l"
  "state (sample l s c t p a) = Some (CStr s)"
  "county (sample l s c t p a) = Some (CStr c)"
  "totalHouseholds (sample l s c t p a) = t"
  "povertyHouseholds (sample l s c t p a) = p"
  "aliceHouseholds (sample l s c t p a) = a"
  "aboveAliceHouseholds (sample l s c t p a) = t - p - a"
  by (simp_all add: sample_def calculateRates_def)


section \<open>The national rates\<close>

lemma national_rates_from_sums:
  assumes "createAggregatedStats database = Inr agg"
  shows "n_povertyRate (national agg) =
           percent (total_of povertyHouseholds (filter is_county database))
             (total_of totalHouseholds (filter is_county database))"
    and "n_aliceRate (national agg) =
           percent (total_of aliceHouseholds (filter is_county database))
             (total_of totalHouseholds (filter is_county database))"
    and "n_combinedRate (national agg) =
           percent (total_of povertyHouseholds (filter is_county database) +
                    total_of aliceHouseholds (filter is_county database))
             (total_of totalHouseholds (filter is_county database))"
proof -
  from assms obtain acc where acc: "accumulate database no_rollups = Inr acc"
    and agg: "national agg = nationalRates (fst acc)"
    by (auto simp: createAggregatedStats_def split: sum.splits)
  from accumulate_national [OF acc]
  show "n_povertyRate (national agg) =
           percent (total_of povertyHouseholds (filter is_county database))
             (total_of totalHouseholds (filter is_county database))"
    and "n_aliceRate (national agg) =
           percent (total_of aliceHouseholds (filter is_county database))
             (total_of totalHouseholds (filter is_county database))"
    and "n_combinedRate (national agg) =
           percent (total_of povertyHouseholds (filter is_county database) +
                    total_of aliceHouseholds (filter is_county database))
             (total_of totalHouseholds (filter is_county database))"
    by (simp_all add: agg nationalRates_rates no_rollups_def)
qed

lemma percent_0_0: "percent 0 0 = ToFixed1 NaN"
  by (simp add: percent_def)

text \<open>
  C7 against the code. The national rates are \<^verbatim>\<open>toFixed(1)\<close> of the quotient of the
  summed counts with no test of the divisor, unlike the per-record rates. On a database
  whose only record is a tract, the summed total is 0 and the three national rates are
  the text NaN, not 0.
\<close>

theorem national_rates_unguarded:
  "map_sum id (\<lambda>agg. (n_totalHouseholds (national agg),
                       rate_text (n_povertyRate (national agg)),
                       rate_text (n_aliceRate (national agg)),
                       rate_text (n_combinedRate (national agg))))
     (createAggregatedStats [sample ''tract'' ''Texas'' ''Bexar'' 40 4 8])
   = Inr (0, Some ''NaN'', Some ''NaN'', Some ''NaN'')"
  by (simp add: createAggregatedStats_def addRecord_other sample_fields no_rollups_def
      nationalRates_totals nationalRates_rates percent_0_0)

section \<open>Rounding to a double\<close>

lemma pow2_power_int: "pow2 e = power_int 2 e"
  by (simp add: pow2_def power_int_def inverse_eq_divide power_one_over)

lemma pow2_pos: "0 < pow2 e"
  by (simp add: pow2_def)

lemma pow2_add: "pow2 (a + b) = pow2 a * pow2 b"
  by (simp add: pow2_power_int power_int_add)

lemma pow2_mono: "a \<le> b \<Longrightarrow> pow2 a \<le> pow2 b"
  by (simp add: pow2_power_int power_int_increasing)

lemma pow2_nat: "0 \<le> e \<Longrightarrow> pow2 e = 2 ^ nat e"
  by (simp add: pow2_def)

lemma floor_log2_lower:
  assumes "0 < x"
  shows "pow2 (floor_log2 x) \<le> x"
proof (cases "1 \<le> x")
  case True
  then have n: "0 < \<lfloor>x\<rfloor>" by simp
  from bitlen_bounds [OF n] have b: "2 ^ nat (bitlen \<lfloor>x\<rfloor> - 1) \<le> \<lfloor>x\<rfloor>" ..
  have "0 < bitlen \<lfloor>x\<rfloor>"
    using n bitlen_eq_zero_iff [of "\<lfloor>x\<rfloor>"] bitlen_nonneg [of "\<lfloor>x\<rfloor>"] by linarith
  then have "pow2 (floor_log2 x) = 2 ^ nat (bitlen \<lfloor>x\<rfloor> - 1)"
    using True by (simp add: floor_log2_def pow2_nat)
  also have "\<dots> = of_int (2 ^ nat (bitlen \<lfloor>x\<rfloor> - 1))" by simp
  also have "\<dots> \<le> of_int \<lfloor>x\<rfloor>" using b by (simp only: of_int_le_iff)
  also have "\<dots> \<le> x" by simp
  finally show ?thesis .
next
  case False
  define y where "y = 1 / x"
  define m where "m = \<lceil>y\<rceil> - 1"
  from False assms have y: "1 < y" by (simp add: y_def)
  then have "1 < \<lceil>y\<rceil>" by (simp add: less_ceiling_iff)
  then have m: "0 < m" by (simp add: m_def)
  from bitlen_bounds [OF m] have "m < 2 ^ nat (bitlen m)" ..
  then have "\<lceil>y\<rceil> \<le> 2 ^ nat (bitlen m)" by (simp add: m_def)
  then have "y \<le> of_int (2 ^ nat (bitlen m))"
    by (simp only: ceiling_le_iff)
  then have "y \<le> 2 ^ nat (bitlen m)"
    by simp
  then have "1 \<le> 2 ^ nat (bitlen m) * x"
    using assms by (simp add: y_def pos_divide_le_eq)
  then have "1 / 2 ^ nat (bitlen m) \<le> x"
    by (simp add: pos_divide_le_eq mult.commute)
  moreover have "pow2 (floor_log2 x) = 1 / 2 ^ nat (bitlen m)"
    using False bitlen_nonneg [of m]
    by (auto simp: floor_log2_def pow2_def m_def y_def)
  ultimately show ?thesis by simp
qed

lemma floor_log2_upper:
  assumes "0 < x"
  shows "x < pow2 (floor_log2 x + 1)"
proof (cases "1 \<le> x")
  case True
  then have n: "0 < \<lfloor>x\<rfloor>" by simp
  from bitlen_bounds [OF n] have "\<lfloor>x\<rfloor> < 2 ^ nat (bitlen \<lfloor>x\<rfloor>)" ..
  then have "x < of_int (2 ^ nat (bitlen \<lfloor>x\<rfloor>))"
    by (simp only: floor_less_iff)
  moreover have "pow2 (floor_log2 x + 1) = 2 ^ nat (bitlen \<lfloor>x\<rfloor>)"
    using True bitlen_nonneg [of "\<lfloor>x\<rfloor>"] by (simp add: floor_log2_def pow2_nat)
  ultimately show ?thesis by simp
next
  case False
  define y where "y = 1 / x"
  define m where "m = \<lceil>y\<rceil> - 1"
  from False assms have y: "1 < y" by (simp add: y_def)
  then have "1 < \<lceil>y\<rceil>" by (simp add: less_ceiling_iff)
  then have m: "0 < m" by (simp add: m_def)
  have j: "0 < bitlen m"
    using m bitlen_eq_zero_iff [of m] bitlen_nonneg [of m] by linarith
  from bitlen_bounds [OF m] have "2 ^ nat (bitlen m - 1) \<le> m" ..
  then have "(of_int (2 ^ nat (bitlen m - 1)) :: rat) \<le> of_int m"
    by (simp only: of_int_le_iff)
  moreover have "of_int m < y"
    unfolding m_def by linarith
  ultimately have "(of_int (2 ^ nat (bitlen m - 1)) :: rat) < y"
    by (rule le_less_trans)
  then have "2 ^ nat (bitlen m - 1) < y" by simp
  then have "x * 2 ^ nat (bitlen m - 1) < 1"
    using assms by (simp add: y_def pos_less_divide_eq mult.commute)
  then have "x < 1 / 2 ^ nat (bitlen m - 1)"
    by (simp add: pos_less_divide_eq)
  moreover have "pow2 (floor_log2 x + 1) = 1 / 2 ^ nat (bitlen m - 1)"
  proof (cases "bitlen m = 1")
    case True
    with False show ?thesis by (simp add: floor_log2_def pow2_def m_def y_def)
  next
    case False
    with j have "1 < bitlen m" by simp
    moreover have "nat (bitlen m - 1) = nat (- (- bitlen m + 1))" by simp
    ultimately show ?thesis
      using \<open>\<not> 1 \<le> x\<close> by (simp add: floor_log2_def pow2_def m_def y_def)
  qed
  ultimately show ?thesis by simp
qed

lemma floor_log2_unique:
  assumes "pow2 k \<le> x" and "x < pow2 (k + 1)"
  shows "floor_log2 x = k"
proof -
  have x: "0 < x" using assms(1) pow2_pos [of k] by linarith
  have "\<not> floor_log2 x < k"
  proof
    assume "floor_log2 x < k"
    then have "floor_log2 x + 1 \<le> k" by simp
    from pow2_mono [OF this] floor_log2_upper [OF x] assms(1) show False by linarith
  qed
  moreover have "\<not> k < floor_log2 x"
  proof
    assume "k < floor_log2 x"
    then have "k + 1 \<le> floor_log2 x" by simp
    from pow2_mono [OF this] floor_log2_lower [OF x] assms(2) show False by linarith
  qed
  ultimately show ?thesis by simp
qed

text \<open>The test for infinity in \<open>fl\<close> is the comparison with \<open>2^1024\<close>.\<close>

lemma overflow_iff:
  assumes "0 < m"
  shows "1023 < floor_log2 m \<longleftrightarrow> 2 ^ 1024 \<le> m"
proof
  assume "1023 < floor_log2 m"
  then have "1024 \<le> floor_log2 m" by simp
  from pow2_mono [OF this] floor_log2_lower [OF assms] show "2 ^ 1024 \<le> m"
    by (simp add: pow2_def)
next
  assume m: "2 ^ 1024 \<le> m"
  show "1023 < floor_log2 m"
  proof (rule ccontr)
    assume "\<not> 1023 < floor_log2 m"
    then have "floor_log2 m + 1 \<le> 1024" by simp
    from pow2_mono [OF this] floor_log2_upper [OF assms] m show False
      by (simp add: pow2_def)
  qed
qed

lemma round_even_error: "\<bar>of_int (round_even q) - q\<bar> \<le> 1 / 2"
proof -
  have "of_int \<lfloor>q\<rfloor> \<le> q" "q < of_int \<lfloor>q\<rfloor> + 1" by linarith+
  then show ?thesis
    by (auto simp: round_even_def Let_def)
qed

lemma round_even_mono_1: "1 \<le> q \<Longrightarrow> 1 \<le> round_even q"
proof -
  assume "1 \<le> q"
  then have "1 \<le> \<lfloor>q\<rfloor>" by simp
  then show ?thesis by (auto simp: round_even_def Let_def)
qed

lemma round_even_nonneg: "0 \<le> q \<Longrightarrow> 0 \<le> round_even q"
proof -
  assume "0 \<le> q"
  then have "0 \<le> \<lfloor>q\<rfloor>" by simp
  then show ?thesis by (auto simp: round_even_def Let_def)
qed

lemma fl_pos_nonneg: "0 \<le> x \<Longrightarrow> 0 \<le> fl_pos x"
  by (simp add: fl_pos_def Let_def round_even_nonneg pow2_pos less_imp_le)

lemma fl_pos_positive:
  assumes "pow2 (- 1074) \<le> x"
  shows "0 < fl_pos x"
proof -
  define e where "e = max (floor_log2 x - 52) (- 1074)"
  have x: "0 < x" using assms pow2_pos [of "- 1074"] by linarith
  have "pow2 e \<le> x"
  proof (cases "floor_log2 x - 52 \<le> - 1074")
    case True
    then show ?thesis using assms by (simp add: e_def max_def)
  next
    case False
    then have "e \<le> floor_log2 x" by (simp add: e_def)
    from pow2_mono [OF this] floor_log2_lower [OF x] show ?thesis by linarith
  qed
  then have "1 \<le> x / pow2 e"
    using pow2_pos [of e] by (simp add: field_simps)
  from round_even_mono_1 [OF this] have "0 < round_even (x / pow2 e)" by linarith
  then have "0 < (of_int (round_even (x / pow2 e)) :: rat) * pow2 e"
    using pow2_pos [of e] by simp
  then show ?thesis by (simp add: fl_pos_def e_def Let_def)
qed

lemma fl_pos_double: "is_double (fl_pos x)"
proof -
  define e where "e = max (floor_log2 x - 52) (- 1074)"
  have "0 \<le> e + 1074" by (simp add: e_def)
  then have "pow2 (e + 1074) = of_int (2 ^ nat (e + 1074))"
    by (simp add: pow2_nat)
  moreover have "pow2 e = pow2 (e + 1074) * pow2 (- 1074)"
    using pow2_add [of "e + 1074" "- 1074"] by simp
  ultimately have "fl_pos x = of_int (round_even (x / pow2 e) * 2 ^ nat (e + 1074)) * pow2 (- 1074)"
    by (simp add: fl_pos_def e_def Let_def)
  then show ?thesis unfolding is_double_def by blast
qed

lemma fl_pos_error:
  assumes "pow2 (- 1022) \<le> x"
  shows "\<bar>fl_pos x - x\<bar> \<le> x / 2 ^ 53"
proof -
  define e where "e = max (floor_log2 x - 52) (- 1074)"
  define q where "q = x / pow2 e"
  have x: "0 < x" using assms pow2_pos [of "- 1022"] by linarith
  have "pow2 (e + 52) \<le> x"
  proof (cases "floor_log2 x - 52 \<le> - 1074")
    case True
    then show ?thesis using assms by (simp add: e_def max_def)
  next
    case False
    then have "e + 52 = floor_log2 x" by (simp add: e_def)
    with floor_log2_lower [OF x] show ?thesis by simp
  qed
  then have le: "pow2 e * 2 ^ 52 \<le> x"
    by (simp add: pow2_add pow2_nat)
  have "fl_pos x - x = (of_int (round_even q) - q) * pow2 e"
    using pow2_pos [of e] by (simp add: fl_pos_def e_def q_def Let_def algebra_simps)
  then have "\<bar>fl_pos x - x\<bar> = \<bar>of_int (round_even q) - q\<bar> * pow2 e"
    using pow2_pos [of e] by (simp add: abs_mult)
  also have "\<dots> \<le> 1 / 2 * pow2 e"
    using round_even_error [of q] pow2_pos [of e] by (intro mult_right_mono) simp_all
  also have "\<dots> \<le> x / 2 ^ 53"
    using le by simp
  finally show ?thesis .
qed

lemma fl_positive_normal:
  assumes "pow2 (- 1022) \<le> x" and "x < 2 ^ 1023"
  shows "\<exists>y. fl x = Finite y \<and> \<bar>y - x\<bar> \<le> x / 2 ^ 53"
proof -
  have x: "0 < x" using assms(1) pow2_pos [of "- 1022"] by linarith
  note e = fl_pos_error [OF assms(1)]
  have "x / 2 ^ 53 \<le> x" using x by (simp add: field_simps)
  with e have "fl_pos x \<le> 2 * x" by linarith
  with assms(2) have b: "fl_pos x < 2 ^ 1024" by simp
  have "\<not> 1023 < floor_log2 (fl_pos x)"
  proof
    assume "1023 < floor_log2 (fl_pos x)"
    then have "1024 \<le> floor_log2 (fl_pos x)" by simp
    from pow2_mono [OF this] have "2 ^ 1024 \<le> pow2 (floor_log2 (fl_pos x))"
      by (simp add: pow2_def)
    moreover have "0 < fl_pos x"
      using assms(1) pow2_mono [of "- 1074" "- 1022"] by (intro fl_pos_positive) simp
    ultimately show False
      using floor_log2_lower [of "fl_pos x"] b by linarith
  qed
  with x e show ?thesis by (simp add: fl_def Let_def)
qed

lemma integer_gap:
  fixes a b :: int
  assumes "0 < t" and "(of_int b :: rat) < of_int a"
  shows "1 / (2 * of_int t) \<le> (of_int a - of_int b) / (2 * of_int t :: rat)"
proof -
  from assms(2) have "b < a" by (simp only: of_int_less_iff)
  then have "1 \<le> a - b" by simp
  then have "(1::rat) \<le> of_int (a - b)" by (simp only: of_int_1_le_iff)
  then have "(1::rat) \<le> of_int a - of_int b" by simp
  then show ?thesis using assms(1) by (simp add: divide_le_cancel)
qed

lemma fl_minus: "0 < x \<Longrightarrow> fl x = Finite y \<Longrightarrow> fl (- x) = Finite (- y)"
  by (auto simp: fl_def Let_def split: if_splits)

text \<open>The two roundings of \<open>(p / t) * 100\<close> for positive counts, and the tenth that
  \<^verbatim>\<open>toFixed(1)\<close> picks for the result.\<close>

lemma scaled_quotient:
  assumes t: "0 < t" "t < 2 ^ 53" and p: "1 \<le> p" "p \<le> 2 ^ 41"
  shows "\<exists>y1 y. fl (of_int p / of_int t) = Finite y1 \<and> 0 < y1 \<and>
           fl (y1 * 100) = Finite y \<and> 0 < y \<and> y < 10 ^ 21 \<and>
           \<bar>rat_of_nat (tenths y) / 10 - 100 * rat_of_int p / rat_of_int t\<bar> \<le> 1 / 20"
proof -
  define T :: rat where "T = of_int t"
  define P :: rat where "P = of_int p"
  define u :: rat where "u = 1 / 2 ^ 53"
  define x where "x = P / T"
  have T: "0 < T" "T < 2 ^ 53"
    using t unfolding T_def by (simp, metis of_int_less_iff of_int_numeral of_int_power)
  have P: "1 \<le> P" "P \<le> 2 ^ 41"
    using p unfolding P_def
    by (simp, metis of_int_le_iff of_int_numeral of_int_power)
  have x0: "0 < x" using T P by (simp add: x_def)
  have "1 / 2 ^ 53 \<le> x"
  proof -
    have "1 / 2 ^ 53 \<le> 1 / T" using T by (simp add: field_simps)
    also have "\<dots> \<le> P / T" using T P by (simp add: divide_right_mono)
    finally show ?thesis by (simp add: x_def)
  qed
  then have xlo: "pow2 (- 1022) \<le> x" by (simp add: pow2_def)
  have xhi: "x \<le> 2 ^ 41"
  proof -
    have "P / T \<le> P / 1" using T P t unfolding T_def
      by (intro divide_left_mono) simp_all
    with P show ?thesis by (simp add: x_def)
  qed
  then have "x < 2 ^ 1023" by simp
  from fl_positive_normal [OF xlo this] obtain y1 where
    y1: "fl x = Finite y1" "\<bar>y1 - x\<bar> \<le> x * u" by (auto simp: u_def)
  have u: "0 < u" "u \<le> 1 / 2" by (simp_all add: u_def)
  have y1b: "x / 2 \<le> y1" "y1 \<le> 2 * x"
  proof -
    have "x * u \<le> x * (1 / 2)" using u x0 by (intro mult_left_mono) simp_all
    with y1(2) show "x / 2 \<le> y1" "y1 \<le> 2 * x" by (simp_all add: abs_le_iff)
  qed
  define x2 where "x2 = y1 * 100"
  have "pow2 (- 1022) \<le> x2"
  proof -
    have "pow2 (- 1022) \<le> 1 / 2 ^ 53 / 2 * 100" by (simp add: pow2_def)
    also have "\<dots> \<le> x / 2 * 100" using \<open>1 / 2 ^ 53 \<le> x\<close> by simp
    also have "\<dots> \<le> x2" using y1b by (simp add: x2_def)
    finally show ?thesis .
  qed
  moreover have "x2 < 2 ^ 1023"
  proof -
    have "x2 \<le> 2 * 2 ^ 41 * 100" using y1b xhi by (simp add: x2_def)
    also have "\<dots> < 2 ^ 1023" by simp
    finally show ?thesis .
  qed
  ultimately obtain y where y: "fl x2 = Finite y" "\<bar>y - x2\<bar> \<le> x2 * u"
    using fl_positive_normal [of x2] by (auto simp: u_def)
  have y1p: "0 < y1" using y1b x0 by linarith
  have x2b: "0 < x2" "x2 \<le> 200 * x" using y1b x0 by (simp_all add: x2_def)
  have yb: "x2 / 2 \<le> y" "y \<le> 2 * x2"
  proof -
    have "x2 * u \<le> x2 * (1 / 2)" using u x2b by (intro mult_left_mono) simp_all
    with y(2) show "x2 / 2 \<le> y" "y \<le> 2 * x2" by (simp_all add: abs_le_iff)
  qed
  have yp: "0 < y" using yb x2b by linarith
  have "y \<le> 400 * 2 ^ 41" using yb x2b xhi by linarith
  then have ybig: "y < 10 ^ 21" by simp
  define r where "r = 1000 * P / T"
  define d where "d = r * (2 * u + u * u)"
  have close: "\<bar>10 * y - r\<bar> \<le> d"
  proof -
    have "x2 * u \<le> (100 * x + 100 * x * u) * u"
    proof -
      have "x2 \<le> 100 * x + 100 * x * u" using y1(2) by (simp add: x2_def abs_le_iff)
      then show ?thesis using u by (intro mult_right_mono) simp_all
    qed
    moreover have "\<bar>x2 - 100 * x\<bar> \<le> 100 * x * u"
      using y1(2) by (simp add: x2_def abs_le_iff)
    ultimately have "\<bar>y - 100 * x\<bar> \<le> 100 * x * u + (100 * x + 100 * x * u) * u"
      using y(2) by (simp add: abs_le_iff)
    then have "\<bar>10 * y - 1000 * x\<bar> \<le> 10 * (100 * x * u + (100 * x + 100 * x * u) * u)"
      by (simp add: abs_le_iff)
    also have "\<dots> = d" using T by (simp add: d_def r_def x_def field_simps)
    finally show ?thesis by (simp add: r_def x_def)
  qed
  have small: "d < 1 / (2 * T)"
  proof -
    have "2000 * P * (2 * u + u * u) \<le> 2000 * 2 ^ 41 * (2 * u + u * u)"
      using P u by (intro mult_right_mono mult_left_mono) simp_all
    also have "\<dots> < 1" by (simp add: u_def)
    finally have "2000 * P * (2 * u + u * u) < 1" .
    moreover have "0 < 2 * T" using T by simp
    ultimately have "2000 * P * (2 * u + u * u) / (2 * T) < 1 / (2 * T)"
      by (rule divide_strict_right_mono)
    moreover have "d = 2000 * P * (2 * u + u * u) / (2 * T)"
      by (simp add: d_def r_def)
    ultimately show ?thesis by (simp only:)
  qed
  define N where "N = \<lfloor>10 * y + 1 / 2\<rfloor>"
  have N: "of_int N \<le> 10 * y + 1 / 2" "10 * y + 1 / 2 < of_int N + 1"
    unfolding N_def by linarith+
  have "0 \<le> N" using yp unfolding N_def by simp
  then have tn: "(of_nat (tenths y) :: rat) = of_int N"
    by (simp add: tenths_def N_def)
  have upper: "of_int N - r \<le> 1 / 2"
  proof (rule ccontr)
    assume "\<not> of_int N - r \<le> 1 / 2"
    then have "r < of_int N - 1 / 2" by simp
    then have "2000 * P < (2 * of_int N - 1) * T"
      using T by (simp add: r_def field_simps)
    then have "(of_int (2000 * p) :: rat) < of_int ((2 * N - 1) * t)"
      by (simp add: P_def T_def)
    from integer_gap [OF t(1) this]
    have "1 / (2 * T) \<le> (of_int N - 1 / 2) - r"
      using T by (simp add: P_def T_def r_def field_simps)
    with small close N show False by (simp add: abs_le_iff)
  qed
  have lower: "r - of_int N \<le> 1 / 2"
  proof (rule ccontr)
    assume "\<not> r - of_int N \<le> 1 / 2"
    then have "of_int N + 1 / 2 < r" by simp
    then have "(2 * of_int N + 1) * T < 2000 * P"
      using T by (simp add: r_def field_simps)
    then have "(of_int ((2 * N + 1) * t) :: rat) < of_int (2000 * p)"
      by (simp add: P_def T_def)
    from integer_gap [OF t(1) this]
    have "1 / (2 * T) \<le> r - (of_int N + 1 / 2)"
      using T by (simp add: P_def T_def r_def field_simps)
    with small close N show False by (simp add: abs_le_iff)
  qed
  have eq: "of_int N / 10 - 100 * P / T = (of_int N - r) / 10"
    by (simp add: r_def diff_divide_distrib)
  from upper lower have "\<bar>of_int N - r\<bar> \<le> 1 / 2"
    by linarith
  then have "\<bar>(of_int N - r) / 10\<bar> \<le> 1 / 20"
    by simp
  then have "\<bar>of_int N / 10 - 100 * P / T\<bar> \<le> 1 / 20"
    by (simp only: eq)
  with y1 y y1p yp ybig tn show ?thesis
    by (auto simp: P_def T_def x_def x2_def)
qed

section \<open>The rates of a record\<close>

lemma percent_shows_rounded:
  assumes t: "0 < t" "t < 2 ^ 53" and p: "\<bar>p\<bar> \<le> 2 ^ 41"
  shows "shows_rounded (percent p t) (formula p t)"
proof -
  consider "p = 0" | "1 \<le> p" | "1 \<le> - p" by linarith
  then show ?thesis
  proof cases
    case 1
    have "percent 0 t = ToFixed1 (Finite 0)"
      using t by (simp add: percent_def fl_def)
    moreover have "tenths 0 = 0" by (simp add: tenths_def)
    ultimately have "rate_text (percent p t) = Some (one_decimal 0)"
      using 1 by simp
    then show ?thesis
      unfolding shows_rounded_def formula_def using 1 by (intro exI [of _ 0]) simp
  next
    case 2
    with p have "p \<le> 2 ^ 41" by simp
    from scaled_quotient [OF t 2 this] obtain y1 y where
      y: "fl (of_int p / of_int t) = Finite y1" "fl (y1 * 100) = Finite y" "0 < y" "y < 10 ^ 21"
      "\<bar>rat_of_nat (tenths y) / 10 - 100 * rat_of_int p / rat_of_int t\<bar> \<le> 1 / 20"
      by blast
    then have "percent p t = ToFixed1 (Finite y)"
      using t by (simp add: percent_def)
    with y have "rate_text (percent p t) = Some (one_decimal (tenths y))"
      by simp
    with y(5) show ?thesis
      unfolding shows_rounded_def formula_def by (intro exI [of _ "tenths y"]) simp
  next
    case 3
    with p have "- p \<le> 2 ^ 41" by simp
    from scaled_quotient [OF t 3 this] obtain y1 y where
      y: "fl (of_int (- p) / of_int t) = Finite y1" "0 < y1" "fl (y1 * 100) = Finite y"
      "0 < y" "y < 10 ^ 21"
      "\<bar>rat_of_nat (tenths y) / 10 - 100 * rat_of_int (- p) / rat_of_int t\<bar> \<le> 1 / 20"
      by blast
    have "0 < rat_of_int (- p)" "0 < rat_of_int t"
      using 3 t by simp_all
    then have "0 < rat_of_int (- p) / rat_of_int t"
      by (rule divide_pos_pos)
    from fl_minus [OF this y(1)] have "fl (rat_of_int p / rat_of_int t) = Finite (- y1)"
      by simp
    moreover from y(2) have "0 < y1 * 100" by simp
    from fl_minus [OF this y(3)] have "fl (- y1 * 100) = Finite (- y)"
      by simp
    ultimately have "percent p t = ToFixed1 (Finite (- y))"
      using t by (simp add: percent_def)
    with y have "rate_text (percent p t) = Some (''-'' @ one_decimal (tenths y))"
      by simp
    moreover have "- rat_of_nat (tenths y) / 10 - 100 * rat_of_int p / rat_of_int t =
        - (rat_of_nat (tenths y) / 10 - 100 * rat_of_int (- p) / rat_of_int t)"
      by simp
    then have "\<bar>- rat_of_nat (tenths y) / 10 - 100 * rat_of_int p / rat_of_int t\<bar> \<le> 1 / 20"
      using y(6) by (simp only: abs_minus_cancel)
    ultimately show ?thesis
      unfolding shows_rounded_def formula_def by (intro exI [of _ "tenths y"]) simp
  qed
qed

lemma emitted_rates:
  assumes "countyRecord row = Some r \<or> subcountyRecord row = Inr (Some r)"
    and "0 < totalHouseholds r"
  shows "povertyRate r = percent (povertyHouseholds r) (totalHouseholds r)"
    and "aliceRate r = percent (aliceHouseholds r) (totalHouseholds r)"
    and "combinedRate r = percent (povertyHouseholds r + aliceHouseholds r) (totalHouseholds r)"
proof -
  from assms(1) obtain r0 where r: "r = calculateRates r0"
    by (auto simp: countyRecord_def subcountyRecord_def split: if_splits sum.splits)
  with assms(2) have "0 < totalHouseholds r0"
    by (simp add: calculateRates_keeps)
  then show "povertyRate r = percent (povertyHouseholds r) (totalHouseholds r)"
    and "aliceRate r = percent (aliceHouseholds r) (totalHouseholds r)"
    and "combinedRate r = percent (povertyHouseholds r + aliceHouseholds r) (totalHouseholds r)"
    unfolding r by (simp_all add: calculateRates_def)
qed

text \<open>
  C4, as the code has it. For a record emitted from either sheet with
  \<open>0 < totalHouseholds < 2^53\<close> and poverty and ALICE counts whose magnitudes add up
  to at most \<open>2^41\<close>, each of the three rates is the one-decimal numeral nearest to its
  reference formula (either neighbour when the value lies exactly halfway between two
  tenths).
\<close>

theorem rates_match_formulas:
  assumes "countyRecord row = Some r \<or> subcountyRecord row = Inr (Some r)"
    and "0 < totalHouseholds r" and "totalHouseholds r < 2 ^ 53"
    and "\<bar>povertyHouseholds r\<bar> + \<bar>aliceHouseholds r\<bar> \<le> 2 ^ 41"
  shows "shows_rounded (povertyRate r) (formula (povertyHouseholds r) (totalHouseholds r)) \<and>
         shows_rounded (aliceRate r) (formula (aliceHouseholds r) (totalHouseholds r)) \<and>
         shows_rounded (combinedRate r)
           (formula (povertyHouseholds r + aliceHouseholds r) (totalHouseholds r))"
proof -
  note e = emitted_rates [OF assms(1,2)]
  from assms(4) have "\<bar>povertyHouseholds r\<bar> \<le> 2 ^ 41" "\<bar>aliceHouseholds r\<bar> \<le> 2 ^ 41"
    "\<bar>povertyHouseholds r + aliceHouseholds r\<bar> \<le> 2 ^ 41"
    by linarith+
  with assms(2,3) show ?thesis
    unfolding e by (intro conjI percent_shows_rounded)
qed

lemma text_150_1000: "rate_text (percent 150 1000) = Some ''15.0''"
  by code_simp

lemma text_300_1000: "rate_text (percent 300 1000) = Some ''30.0''"
  by code_simp

lemma text_450_1000: "rate_text (percent 450 1000) = Some ''45.0''"
  by code_simp

text \<open>Households 1000, poverty 150, ALICE 300: the rates read 15.0, 30.0 and 45.0.\<close>

theorem rates_match_formulas_witness:
  "\<exists>r. countyRecord row_rates = Some r \<and>
       shows_rounded (povertyRate r) 15 \<and> rate_text (povertyRate r) = Some ''15.0'' \<and>
       shows_rounded (aliceRate r) 30 \<and> rate_text (aliceRate r) = Some ''30.0'' \<and>
       shows_rounded (combinedRate r) 45 \<and> rate_text (combinedRate r) = Some ''45.0''"
proof -
  have g: "row_rates ''GEO id2'' = Some (CNum 1001)"
    "row_rates ''Households'' = Some (CNum 1000)"
    "row_rates ''Poverty Households'' = Some (CNum 150)"
    "row_rates ''ALICE Households'' = Some (CNum 300)"
    by (simp_all add: row_rates_def)
  then obtain r where r: "countyRecord row_rates = Some r"
    by (simp add: countyRecord_def)
  then have c: "totalHouseholds r = 1000" "povertyHouseholds r = 150" "aliceHouseholds r = 300"
    by (auto simp: countyRecord_def g calculateRates_keeps parseInt_or_0_def)
  have t: "povertyRate r = percent 150 1000" "aliceRate r = percent 300 1000"
    "combinedRate r = percent 450 1000"
    using emitted_rates [OF disjI1 [OF r]] by (simp_all add: c)
  from rates_match_formulas [OF disjI1 [OF r]]
  have "shows_rounded (povertyRate r) 15" "shows_rounded (aliceRate r) 30"
    "shows_rounded (combinedRate r) 45"
    by (simp_all add: c formula_def)
  with r show ?thesis
    by (simp add: t text_150_1000 text_300_1000 text_450_1000)
qed

lemma text_large: "rate_text (percent 9761012951552 37614693454921) = Some ''25.9''"
  by code_simp

text \<open>
  C4 as stated fails beyond the precision of doubles: with 37614693454921 households of
  which 9761012951552 are in poverty, the formula gives a value just above 25.95, whose
  nearest tenth is 26.0, while the computed double lies just below 25.95 and prints 25.9.
\<close>

theorem rate_rounding_counterexample:
  "map_option totalHouseholds (countyRecord row_large) = Some 37614693454921 \<and>
   map_option povertyRate (countyRecord row_large) = Some (percent 9761012951552 37614693454921) \<and>
   rate_text (percent 9761012951552 37614693454921) = Some ''25.9'' \<and>
   \<bar>26 - formula 9761012951552 37614693454921\<bar> < 1 / 20 \<and>
   1 / 20 < \<bar>259 / 10 - formula 9761012951552 37614693454921\<bar>"
proof -
  have g: "row_large ''GEO id2'' = Some (CNum 1001)"
    "row_large ''Households'' = Some (CNum 37614693454921)"
    "row_large ''Poverty Households'' = Some (CNum 9761012951552)"
    by (simp_all add: row_large_def)
  then obtain r where r: "countyRecord row_large = Some r"
    by (simp add: countyRecord_def)
  then have c: "totalHouseholds r = 37614693454921" "povertyHouseholds r = 9761012951552"
    by (auto simp: countyRecord_def g calculateRates_keeps parseInt_or_0_def)
  from emitted_rates(1) [OF disjI1 [OF r]] c
  have "povertyRate r = percent 9761012951552 37614693454921" by simp
  with r c show ?thesis
    by (simp add: text_large formula_def)
qed

section \<open>The extremes\<close>

lemma is_double_0: "is_double 0"
  unfolding is_double_def by (intro exI [of _ 0]) simp

lemma is_double_minus: "is_double x \<Longrightarrow> is_double (- x)"
  unfolding is_double_def
proof -
  assume "\<exists>k. x = of_int k * pow2 (- 1074)"
  then obtain k where "x = of_int k * pow2 (- 1074)" ..
  then have "- x = of_int (- k) * pow2 (- 1074)" by simp
  then show "\<exists>k. - x = of_int k * pow2 (- 1074)" ..
qed

lemma is_double_diff: "is_double x \<Longrightarrow> is_double y \<Longrightarrow> is_double (x - y)"
  unfolding is_double_def
proof -
  assume "\<exists>k. x = of_int k * pow2 (- 1074)" and "\<exists>k. y = of_int k * pow2 (- 1074)"
  then obtain k l where "x = of_int k * pow2 (- 1074)" "y = of_int l * pow2 (- 1074)"
    by blast
  then have "x - y = of_int (k - l) * pow2 (- 1074)" by (simp add: algebra_simps)
  then show "\<exists>k. x - y = of_int k * pow2 (- 1074)" ..
qed

lemma fl_double: "fl x = Finite q \<Longrightarrow> is_double q"
  by (auto simp: fl_def Let_def is_double_0 fl_pos_double is_double_minus split: if_splits)

lemma double_positive:
  assumes "is_double z" and "0 < z"
  shows "pow2 (- 1074) \<le> z"
proof -
  from assms(1) obtain k :: int where k: "z = of_int k * pow2 (- 1074)"
    unfolding is_double_def ..
  with assms(2) pow2_pos [of "- 1074"] have "0 < (of_int k :: rat)"
    by (simp add: zero_less_mult_iff)
  then have "1 \<le> k" by simp
  then have "(1::rat) \<le> of_int k" by (simp only: of_int_1_le_iff)
  then have "1 * pow2 (- 1074) \<le> of_int k * pow2 (- 1074)"
    using pow2_pos [of "- 1074"] by (intro mult_right_mono) simp_all
  with k show ?thesis by simp
qed

lemma fl_sign:
  assumes "is_double z"
  shows "js_gt0 (fl z) \<longleftrightarrow> 0 < z"
proof (cases "0 < z")
  case True
  from fl_pos_positive [OF double_positive [OF assms True]] True show ?thesis
    by (simp add: fl_def Let_def)
next
  case False
  then have "0 \<le> fl_pos \<bar>z\<bar>" by (intro fl_pos_nonneg) simp
  with False show ?thesis
    by (simp add: fl_def Let_def)
qed

lemma rate_number_double: "rate_number rt = Finite q \<Longrightarrow> is_double q"
proof (cases rt)
  case Number0
  then show "rate_number rt = Finite q \<Longrightarrow> is_double q"
    by (auto simp: is_double_0)
next
  case (ToFixed1 v)
  then show "rate_number rt = Finite q \<Longrightarrow> is_double q"
    by (cases v) (auto dest: fl_double split: if_splits)
qed

lemma rateDifference_sign:
  "js_gt0 (rateDifference a b) \<longleftrightarrow> num_less (rate_key a) (rate_key b)"
proof -
  have "js_gt0 (js_sub v w) \<longleftrightarrow> num_less w v"
    if "\<And>q. v = Finite q \<Longrightarrow> is_double q" "\<And>q. w = Finite q \<Longrightarrow> is_double q" for v w
  proof (cases v; cases w)
    fix x y assume "v = Finite x" "w = Finite y"
    with that fl_sign [OF is_double_diff [of x y]] show ?thesis by simp
  qed simp_all
  from this [of "rate_key b" "rate_key a"] show ?thesis
    by (simp add: rateDifference_def parseFloat_def rate_key_def rate_number_double)
qed

lemma num_less_rank:
  "v \<noteq> NaN \<Longrightarrow> w \<noteq> NaN \<Longrightarrow> num_less v w \<longleftrightarrow> rank v < rank w"
  by (cases v; cases w) simp_all

lemma rank_eq: "rank v = rank w \<longleftrightarrow> v = w"
  by (cases v; cases w) simp_all

lemma eligible_not_NaN: "eligible r \<Longrightarrow> rate_key r \<noteq> NaN"
  by (auto simp: eligible_def)

subsection \<open>Stable insertion sort\<close>

lemma sort_insert_mset: "mset (sort_insert cmp x ys) = add_mset x (mset ys)"
  by (induction ys) simp_all

lemma js_sort_mset: "mset (js_sort cmp xs) = mset xs"
  by (induction xs) (simp_all add: js_sort_def sort_insert_mset)

lemma sort_insert_set: "set (sort_insert cmp x ys) = insert x (set ys)"
  using sort_insert_mset [of cmp x ys] by (metis set_mset_add_mset_insert set_mset_mset)

lemma js_sort_set: "set (js_sort cmp xs) = set xs"
  using js_sort_mset [of cmp xs] by (metis set_mset_mset)

lemma sort_insert_sorted:
  fixes k :: "'a \<Rightarrow> 'b::linorder"
  assumes "\<And>y. y \<in> set ys \<Longrightarrow> js_gt0 (cmp x y) \<longleftrightarrow> k x < k y"
    and "sorted_wrt (\<lambda>a b. k b \<le> k a) ys"
  shows "sorted_wrt (\<lambda>a b. k b \<le> k a) (sort_insert cmp x ys)"
  using assms
proof (induction ys)
  case Nil
  then show ?case by simp
next
  case (Cons y ys)
  show ?case
  proof (cases "js_gt0 (cmp x y)")
    case True
    with Cons.prems(1) [of y] have "k x < k y" by simp
    moreover from Cons have "sorted_wrt (\<lambda>a b. k b \<le> k a) (sort_insert cmp x ys)" by simp
    ultimately show ?thesis
      using True Cons.prems(2) by (auto simp: sort_insert_set)
  next
    case False
    with Cons.prems(1) [of y] have "k y \<le> k x" by simp
    with False Cons.prems(2) show ?thesis by auto
  qed
qed

lemma sort_insert_stable:
  fixes k :: "'a \<Rightarrow> 'b::linorder"
  assumes "\<And>y. y \<in> set ys \<Longrightarrow> js_gt0 (cmp x y) \<longleftrightarrow> k x < k y"
  shows "filter (\<lambda>r. k r = v) (sort_insert cmp x ys) =
           (if k x = v then x # filter (\<lambda>r. k r = v) ys else filter (\<lambda>r. k r = v) ys)"
  using assms
proof (induction ys)
  case Nil
  then show ?case by simp
next
  case (Cons y ys)
  show ?case
  proof (cases "js_gt0 (cmp x y)")
    case True
    with Cons.prems [of y] have "k x < k y" by simp
    moreover from Cons have "filter (\<lambda>r. k r = v) (sort_insert cmp x ys) =
        (if k x = v then x # filter (\<lambda>r. k r = v) ys else filter (\<lambda>r. k r = v) ys)"
      by simp
    ultimately show ?thesis using True by auto
  next
    case False
    then show ?thesis by simp
  qed
qed

lemma js_sort_sorted:
  fixes k :: "'a \<Rightarrow> 'b::linorder"
  assumes "\<And>a b. a \<in> set xs \<Longrightarrow> b \<in> set xs \<Longrightarrow> js_gt0 (cmp a b) \<longleftrightarrow> k a < k b"
  shows "sorted_wrt (\<lambda>a b. k b \<le> k a) (js_sort cmp xs)"
  using assms
proof (induction xs)
  case Nil
  then show ?case by (simp add: js_sort_def)
next
  case (Cons x xs)
  have "sorted_wrt (\<lambda>a b. k b \<le> k a) (sort_insert cmp x (js_sort cmp xs))"
    using Cons by (intro sort_insert_sorted) (simp_all add: js_sort_set)
  then show ?case by (simp add: js_sort_def)
qed

lemma js_sort_stable:
  fixes k :: "'a \<Rightarrow> 'b::linorder"
  assumes "\<And>a b. a \<in> set xs \<Longrightarrow> b \<in> set xs \<Longrightarrow> js_gt0 (cmp a b) \<longleftrightarrow> k a < k b"
  shows "filter (\<lambda>r. k r = v) (js_sort cmp xs) = filter (\<lambda>r. k r = v) xs"
  using assms
proof (induction xs)
  case Nil
  then show ?case by (simp add: js_sort_def)
next
  case (Cons x xs)
  have "filter (\<lambda>r. k r = v) (sort_insert cmp x (js_sort cmp xs)) =
          (if k x = v then x # filter (\<lambda>r. k r = v) (js_sort cmp xs)
           else filter (\<lambda>r. k r = v) (js_sort cmp xs))"
    using Cons.prems by (intro sort_insert_stable) (simp add: js_sort_set)
  with Cons show ?case by (simp add: js_sort_def)
qed

lemma sortedByRate_eligible: "sortedByRate database = js_sort rateDifference (filter eligible database)"
proof -
  have "eligible = (\<lambda>r. geoLevel r = ''county'' \<and> js_gt0 (rate_number (combinedRate r)))"
    by (simp add: fun_eq_iff eligible_def rate_key_def)
  then show ?thesis by (simp add: sortedByRate_def)
qed

lemma eligible_order:
  assumes "a \<in> set (filter eligible database)" and "b \<in> set (filter eligible database)"
  shows "js_gt0 (rateDifference a b) \<longleftrightarrow> rank (rate_key a) < rank (rate_key b)"
  using assms by (simp add: rateDifference_sign num_less_rank eligible_not_NaN)

text \<open>
  C6. The sequence \<^verbatim>\<open>sortedByRate\<close> holds exactly the county records whose combinedRate
  is above 0, each as often as the database does; it is in descending order of
  combinedRate; and the records of any one rate stand in it in their database order.
  The highest list is made of its first 10 records and the lowest list of its last 10,
  reversed.
\<close>

theorem extremes_sorted_stable:
  assumes "createAggregatedStats database = Inr agg"
  shows "mset (sortedByRate database) = mset (filter eligible database) \<and>
         sorted_wrt (\<lambda>a b. \<not> num_less (rate_key a) (rate_key b)) (sortedByRate database) \<and>
         (\<forall>v. filter (\<lambda>r. rate_key r = v) (sortedByRate database) =
              filter (\<lambda>r. rate_key r = v) (filter eligible database)) \<and>
         highestCombinedRate agg = map summary (take 10 (sortedByRate database)) \<and>
         lowestCombinedRate agg =
           map summary (rev (drop (length (sortedByRate database) - 10) (sortedByRate database)))"
proof -
  let ?k = "\<lambda>r. rank (rate_key r)"
  have m: "mset (sortedByRate database) = mset (filter eligible database)"
    by (simp add: sortedByRate_eligible js_sort_mset)
  then have el: "set (sortedByRate database) = set (filter eligible database)"
    by (metis set_mset_mset)
  have "sorted_wrt (\<lambda>a b. ?k b \<le> ?k a) (sortedByRate database)"
    unfolding sortedByRate_eligible by (rule js_sort_sorted) (rule eligible_order)
  then have s: "sorted_wrt (\<lambda>a b. \<not> num_less (rate_key a) (rate_key b)) (sortedByRate database)"
  proof (rule sorted_wrt_mono_rel [rotated])
    fix a b assume "a \<in> set (sortedByRate database)" "b \<in> set (sortedByRate database)"
      and "?k b \<le> ?k a"
    then show "\<not> num_less (rate_key a) (rate_key b)"
      unfolding el by (simp add: num_less_rank eligible_not_NaN)
  qed
  have st: "filter (\<lambda>r. rate_key r = v) (sortedByRate database) =
              filter (\<lambda>r. rate_key r = v) (filter eligible database)" for v
  proof -
    have "filter (\<lambda>r. ?k r = rank v) (js_sort rateDifference (filter eligible database)) =
            filter (\<lambda>r. ?k r = rank v) (filter eligible database)"
      by (rule js_sort_stable) (rule eligible_order)
    then show ?thesis by (simp add: sortedByRate_eligible rank_eq)
  qed
  from assms have "highestCombinedRate agg = map summary (take 10 (sortedByRate database))"
    and "lowestCombinedRate agg =
           map summary (rev (drop (length (sortedByRate database) - 10) (sortedByRate database)))"
    by (auto simp: createAggregatedStats_def first10_def last10_def split: sum.splits)
  with m s st show ?thesis by blast
qed

lemma sample_rates:
  "0 < t \<Longrightarrow> combinedRate (sample l s c t p a) = percent (p + a) t"
  "stateAbbr (sample l s c t p a) = None"
  by (simp_all add: sample_def calculateRates_def)

lemma number_10: "rate_number (percent 10 100) = Finite 10"
  by code_simp

lemma number_50: "rate_number (percent 50 100) = Finite 50"
  by code_simp

lemma number_5: "rate_number (percent 5 100) = Finite 5"
  by code_simp

lemma text_10: "rate_text (percent 10 100) = Some ''10.0''"
  by code_simp

lemma text_50: "rate_text (percent 50 100) = Some ''50.0''"
  by code_simp

lemma text_5: "rate_text (percent 5 100) = Some ''5.0''"
  by code_simp

lemma four_counties_keys:
  "rate_key (sample ''county'' ''Utah'' ''A'' 100 4 6) = Finite 10"
  "rate_key (sample ''county'' ''Utah'' ''B'' 100 20 30) = Finite 50"
  "rate_key (sample ''county'' ''Utah'' ''C'' 100 25 25) = Finite 50"
  "rate_key (sample ''county'' ''Utah'' ''D'' 100 2 3) = Finite 5"
  by (simp_all add: rate_key_def sample_rates number_10 number_50 number_5)

lemma four_counties_sorted:
  "sortedByRate four_counties =
     [sample ''county'' ''Utah'' ''B'' 100 20 30, sample ''county'' ''Utah'' ''C'' 100 25 25,
      sample ''county'' ''Utah'' ''A'' 100 4 6, sample ''county'' ''Utah'' ''D'' 100 2 3]"
  by (simp add: sortedByRate_eligible four_counties_def eligible_def sample_fields
      four_counties_keys js_sort_def rateDifference_sign)
lemma summary_sample:
  "x_location (summary (sample l s c t p a)) = c @ '', '' @ s"
  "0 < t \<Longrightarrow> x_combinedRate (summary (sample l s c t p a)) = percent (p + a) t"
  by (simp_all add: summary_def sample_fields sample_rates or_else_def)

text \<open>Counties A, B, C, D with rates 10, 50, 50, 5: the highest list is B, C, A, D and the
  lowest list is D, A, C, B.\<close>

theorem extremes_sorted_stable_witness:
  "\<exists>agg. createAggregatedStats four_counties = Inr agg \<and>
     map x_location (highestCombinedRate agg) = [''B, Utah'', ''C, Utah'', ''A, Utah'', ''D, Utah''] \<and>
     map (rate_text \<circ> x_combinedRate) (highestCombinedRate agg) =
       [Some ''50.0'', Some ''50.0'', Some ''10.0'', Some ''5.0''] \<and>
     map x_location (lowestCombinedRate agg) = [''D, Utah'', ''A, Utah'', ''C, Utah'', ''B, Utah'']"
proof -
  have "\<forall>r \<in> set four_counties. is_county r \<longrightarrow>
          ToString (state r) \<notin> set object_prototype_names"
    by (simp add: four_counties_def sample_fields object_prototype_names_def)
  from createAggregatedStats_returns [OF this]
  obtain agg where agg: "createAggregatedStats four_counties = Inr agg" ..
  have h: "highestCombinedRate agg = map summary (take 10 (sortedByRate four_counties))"
    using extremes_sorted_stable [OF agg] by blast
  have l: "lowestCombinedRate agg =
      map summary (rev (drop (length (sortedByRate four_counties) - 10) (sortedByRate four_counties)))"
    using extremes_sorted_stable [OF agg] by blast
  have "map x_location (highestCombinedRate agg) =
      [''B, Utah'', ''C, Utah'', ''A, Utah'', ''D, Utah'']"
    unfolding h four_counties_sorted by (simp add: summary_sample)
  moreover have "map (rate_text \<circ> x_combinedRate) (highestCombinedRate agg) =
       [Some ''50.0'', Some ''50.0'', Some ''10.0'', Some ''5.0'']"
    unfolding h four_counties_sorted by (simp add: summary_sample text_10 text_50 text_5)
  moreover have "map x_location (lowestCombinedRate agg) =
      [''D, Utah'', ''A, Utah'', ''C, Utah'', ''B, Utah'']"
    unfolding l four_counties_sorted by (simp add: summary_sample)
  ultimately show ?thesis using agg by simp
qed

section \<open>Aggregation leaves its input alone\<close>

lemma extremes_in_heap_frame:
  assumes "allocated h"
  shows "objects (snd (extremes_in_heap database h)) = objects h"
    and "a < next_ref h \<Longrightarrow> arrays (snd (extremes_in_heap database h)) a = arrays h a"
  using assms
  by (auto simp: extremes_in_heap_def Let_def array_filter_def array_sort_def array_slice_def
      array_reverse_def new_array_def set_array_def allocated_def split: prod.splits)

lemma map_sort_insert:
  "map f (sort_insert (\<lambda>a b. cmp (f a) (f b)) x ys) = sort_insert cmp (f x) (map f ys)"
  by (induction ys) simp_all

lemma map_js_sort: "map f (js_sort (\<lambda>a b. cmp (f a) (f b)) xs) = js_sort cmp (map f xs)"
  by (induction xs) (simp_all add: js_sort_def map_sort_insert)

lemma extremes_in_heap_value:
  assumes "allocated h" and "records_of h database = Some rs"
  shows "fst (extremes_in_heap database h) =
           (map summary (first10 (sortedByRate rs)), map summary (rev (last10 (sortedByRate rs))))"
proof -
  from assms(2) obtain refs where refs: "arrays h database = Some refs"
    and rs: "rs = map (\<lambda>r. the (objects h r)) refs"
    by (auto simp: records_of_def split: option.splits if_splits)
  let ?get = "\<lambda>r. the (objects h r)"
  let ?p = "\<lambda>r. geoLevel r = ''county'' \<and> js_gt0 (rate_number (combinedRate r))"
  let ?s = "js_sort (\<lambda>a b. rateDifference (?get a) (?get b)) (filter (\<lambda>r. ?p (?get r)) refs)"
  have "map ?get ?s = js_sort rateDifference (map ?get (filter (\<lambda>r. ?p (?get r)) refs))"
    by (rule map_js_sort)
  also have "map ?get (filter (\<lambda>r. ?p (?get r)) refs) = filter ?p rs"
    by (simp add: rs filter_map comp_def)
  finally have s: "map ?get ?s = sortedByRate rs"
    by (simp add: sortedByRate_def)
  have "fst (extremes_in_heap database h) =
          (map (\<lambda>r. summary (?get r)) (first10 ?s), map (\<lambda>r. summary (?get r)) (rev (last10 ?s)))"
    using refs
    by (simp add: extremes_in_heap_def Let_def array_filter_def array_sort_def array_slice_def
      array_reverse_def new_array_def set_array_def elements_def split: prod.splits)
  also have "\<dots> = (map summary (first10 (map ?get ?s)), map summary (rev (last10 (map ?get ?s))))"
    by (simp add: first10_def last10_def take_map drop_map rev_map)
  finally show ?thesis by (simp only: s)
qed

lemma createAggregatedStats_heap_value:
  assumes "allocated h" and "records_of h database = Some rs"
  shows "fst (createAggregatedStats_heap database h) = createAggregatedStats rs"
  using extremes_in_heap_value [OF assms] assms(2)
  by (auto simp: createAggregatedStats_heap_def createAggregatedStats_def
      split: sum.splits prod.splits)

text \<open>
  C10. From a store in which the database array is allocated, the aggregation ends in a
  store with the same GeoRecord objects, the same database array, and hence the same
  records in the same order: the only arrays written are the ones it allocated itself.
\<close>

theorem aggregation_leaves_database:
  assumes "allocated h" and "database < next_ref h"
  shows "objects (snd (createAggregatedStats_heap database h)) = objects h \<and>
         arrays (snd (createAggregatedStats_heap database h)) database = arrays h database \<and>
         records_of (snd (createAggregatedStats_heap database h)) database = records_of h database"
proof -
  let ?h = "snd (createAggregatedStats_heap database h)"
  have "?h = h \<or> ?h = snd (extremes_in_heap database h)"
    by (auto simp: createAggregatedStats_heap_def split: option.splits sum.splits prod.splits)
  with extremes_in_heap_frame [OF assms(1)] assms(2)
  have o: "objects ?h = objects h" and a: "arrays ?h database = arrays h database"
    by auto
  show ?thesis
    unfolding records_of_def o a by simp
qed

lemma sample_heap_allocated: "allocated sample_heap"
  by (simp add: allocated_def sample_heap_def)

lemma sample_heap_sorted_copy:
  "arrays (snd (extremes_in_heap 0 sample_heap)) 1 = Some [1, 0]"
  by (simp add: extremes_in_heap_def Let_def array_filter_def array_sort_def array_slice_def
      array_reverse_def new_array_def set_array_def elements_def sample_heap_def sample_fields
      four_counties_keys [unfolded rate_key_def] rateDifference_sign rate_key_def js_sort_def
      first10_def last10_def)

text \<open>
  A database of the counties A (rate 10) and B (rate 50), in this order, at array address
  0: after the aggregation the database array still reads A, B, while the filtered copy
  at address 1 has been sorted into B, A.
\<close>

theorem aggregation_leaves_database_witness:
  "allocated sample_heap \<and> 0 < next_ref sample_heap \<and>
   arrays (snd (createAggregatedStats_heap 0 sample_heap)) 0 = Some [0, 1] \<and>
   records_of (snd (createAggregatedStats_heap 0 sample_heap)) 0 =
     Some [sample ''county'' ''Utah'' ''A'' 100 4 6, sample ''county'' ''Utah'' ''B'' 100 20 30] \<and>
   arrays (snd (createAggregatedStats_heap 0 sample_heap)) 1 = Some [1, 0]"
proof -
  let ?rs = "[sample ''county'' ''Utah'' ''A'' 100 4 6, sample ''county'' ''Utah'' ''B'' 100 20 30]"
  have n: "0 < next_ref sample_heap"
    by (simp add: sample_heap_def)
  have a: "arrays sample_heap 0 = Some [0, 1]"
    by (simp add: sample_heap_def)
  have r: "records_of sample_heap 0 = Some ?rs"
    by (simp add: records_of_def sample_heap_def)
  have "\<forall>r \<in> set ?rs. is_county r \<longrightarrow> ToString (state r) \<notin> set object_prototype_names"
    by (simp add: sample_fields object_prototype_names_def)
  from accumulate_returns [OF this] obtain acc where "accumulate ?rs no_rollups = Inr acc" ..
  with r have "snd (createAggregatedStats_heap 0 sample_heap) = snd (extremes_in_heap 0 sample_heap)"
    by (simp add: createAggregatedStats_heap_def split: prod.splits)
  then have c: "arrays (snd (createAggregatedStats_heap 0 sample_heap)) 1 = Some [1, 0]"
    by (simp only: sample_heap_sorted_copy)
  from aggregation_leaves_database [OF sample_heap_allocated n] sample_heap_allocated n c
  show ?thesis
    by (simp add: a r)
qed


end
